theory Spec2Isabelle
  imports Main "HOL-Library.Sublist"
begin

section \<open>Task access controller of the Primetrade task manager\<close>

text \<open>
  The development embeds \<^verbatim>\<open>backend/controllers/taskController.js\<close> (the four
  handlers \<^verbatim>\<open>getTasks\<close>, \<^verbatim>\<open>createTask\<close>, \<^verbatim>\<open>updateTask\<close>, \<^verbatim>\<open>deleteTask\<close>) together
  with the schema of \<^verbatim>\<open>backend/models/Task.js\<close>. The task collection is a list of
  documents in insertion order. A handler that writes takes the collection and returns
  its response together with the collection it leaves behind; \<^verbatim>\<open>getTasks\<close> writes
  nothing and returns its response alone. The caller's id is \<^verbatim>\<open>req.user.userId\<close>, the
  id of a user as the authentication middleware hands it over. The id that the model
  layer generates for a new document and the time of the request are parameters of the
  handlers.

  Strings are lists of code units below 256, so that the length of a list is the
  \<^verbatim>\<open>length\<close> of the JavaScript string it stands for.
\<close>

subsection \<open>JavaScript values of a JSON request body\<close>

datatype jsval =
    JUndefined
  | JNull
  | JBool bool
  | JNum int
  | JStr string
  | JArr "jsval list"
  | JObj "(string \<times> jsval) list"

text \<open>Truthiness, as \<^verbatim>\<open>if (v)\<close> and \<^verbatim>\<open>!v\<close> decide it. Arrays and objects are always truthy.\<close>

fun truthy :: "jsval \<Rightarrow> bool" where
  "truthy JUndefined = False"
| "truthy JNull = False"
| "truthy (JBool b) = b"
| "truthy (JNum n) = (n \<noteq> 0)"
| "truthy (JStr s) = (s \<noteq> [])"
| "truthy (JArr _) = True"
| "truthy (JObj _) = True"

type_synonym body = "(string \<times> jsval) list"

text \<open>\<^verbatim>\<open>const { title } = req.body\<close>: a key that is absent reads as \<^verbatim>\<open>undefined\<close>.\<close>

definition field :: "body \<Rightarrow> string \<Rightarrow> jsval" where
  "field b k = (case map_of b k of None \<Rightarrow> JUndefined | Some v \<Rightarrow> v)"

subsection \<open>String helpers of the runtime\<close>

text \<open>\<^verbatim>\<open>String.prototype.trim\<close> on code units below 256: TAB, LF, VT, FF, CR, space, NBSP.\<close>

definition is_space :: "char \<Rightarrow> bool" where
  "is_space c = (c \<in> set [CHR 0x09, CHR 0x0A, CHR 0x0B, CHR 0x0C, CHR 0x0D, CHR 0x20, CHR 0xA0])"

definition trim :: "string \<Rightarrow> string" where
  "trim s = rev (dropWhile is_space (rev (dropWhile is_space s)))"

definition to_lower :: "char \<Rightarrow> char" where
  "to_lower c = (let n = (of_char c :: nat) in if 65 \<le> n \<and> n \<le> 90 then char_of (n + 32) else c)"

text \<open>
  Decimal rendering of an integer, as \<^verbatim>\<open>Number.prototype.toString\<close> gives it for the
  integers that a number holds exactly and prints in full (those below \<open>2\<^sup>5\<^sup>3\<close> in size);
  \<open>JNum\<close> stands for such a number.
\<close>

fun digits :: "nat \<Rightarrow> string" where
  "digits n = (if n < 10 then [char_of (48 + n)] else digits (n div 10) @ [char_of (48 + n mod 10)])"

definition number_toString :: "int \<Rightarrow> string" where
  "number_toString i = (if i < 0 then CHR ''-'' # digits (nat (- i)) else digits (nat i))"

subsection \<open>Object ids\<close>

text \<open>
  An ObjectId is written as 24 hexadecimal digits; the value is kept in lower case, the
  form in which the driver prints it. A string of any other shape does not cast, and the
  query that carries it throws a CastError. (Older drivers also take any string of 12
  characters for an id; the cast below is that of the current driver.)
\<close>

datatype objectid = ObjectId string

definition is_hex :: "char \<Rightarrow> bool" where
  "is_hex c = (c \<in> set ''0123456789abcdefABCDEF'')"

definition castObjectId :: "string \<Rightarrow> objectid option" where
  "castObjectId s =
     (if length s = 24 \<and> list_all is_hex s then Some (ObjectId (map to_lower s)) else None)"

subsection \<open>The Task schema\<close>

record task =
  task_id :: objectid
  title :: string
  description :: string
  status :: string
  userId :: objectid
  createdAt :: nat
  updatedAt :: nat

type_synonym collection = "task list"

text \<open>
  The String cast of the schema, met by \<^verbatim>\<open>title\<close> and \<^verbatim>\<open>description\<close>. A string is
  itself; a number or a boolean is its \<^verbatim>\<open>toString()\<close>; an object that carries a
  non-empty string \<^verbatim>\<open>_id\<close> is that string; an array or any other object does not
  cast (\<open>None\<close>). The handlers only ever hand over truthy values, so \<^verbatim>\<open>null\<close> and
  \<^verbatim>\<open>undefined\<close> are listed for completeness: the cast lets them through and the
  \<^verbatim>\<open>required\<close> validator rejects them, which ends in the same failed save.
\<close>

fun castString :: "jsval \<Rightarrow> string option" where
  "castString (JStr s) = Some s"
| "castString (JNum n) = Some (number_toString n)"
| "castString (JBool b) = Some (if b then ''true'' else ''false'')"
| "castString (JObj fs) =
     (case map_of fs ''_id'' of
        Some (JStr s) \<Rightarrow> if s \<noteq> [] then Some s else None
      | _ \<Rightarrow> None)"
| "castString (JArr _) = None"
| "castString JNull = None"
| "castString JUndefined = None"

text \<open>The setter of a path declared \<^verbatim>\<open>trim: true\<close>: cast, then trim.\<close>

definition set_trimmed :: "jsval \<Rightarrow> string option" where
  "set_trimmed v = map_option trim (castString v)"

definition status_enum :: "string list" where
  "status_enum = [''pending'', ''completed'']"

text \<open>
  The validators that \<^verbatim>\<open>save()\<close> runs: \<^verbatim>\<open>required\<close> (a string must be non-empty),
  \<^verbatim>\<open>maxlength\<close> 100 and 500, and the \<^verbatim>\<open>enum\<close> of \<^verbatim>\<open>status\<close>.
\<close>

definition validate :: "task \<Rightarrow> bool" where
  "validate t \<longleftrightarrow>
     title t \<noteq> [] \<and> length (title t) \<le> 100 \<and>
     description t \<noteq> [] \<and> length (description t) \<le> 500 \<and>
     status t \<in> set status_enum"

subsection \<open>Responses\<close>

datatype response =
    TaskList "task list"
  | TaskCreated task
  | TaskUpdated task
  | TaskDeleted
  | TitleDescriptionRequired
  | TaskNotFound
  | ServerError

fun http_status :: "response \<Rightarrow> nat" where
  "http_status (TaskList _) = 200"
| "http_status (TaskCreated _) = 201"
| "http_status (TaskUpdated _) = 200"
| "http_status TaskDeleted = 200"
| "http_status TitleDescriptionRequired = 400"
| "http_status TaskNotFound = 404"
| "http_status ServerError = 500"

fun tasks_of :: "response \<Rightarrow> task list" where
  "tasks_of (TaskList ts) = ts"
| "tasks_of _ = []"

subsection \<open>getTasks\<close>

text \<open>
  The handler takes \<^verbatim>\<open>search\<close> and \<^verbatim>\<open>status\<close> from \<^verbatim>\<open>req.query\<close> and copies them
  into the filter without looking at their type. The query string parser gives a
  string for \<^verbatim>\<open>status=done\<close>, an array for a repeated parameter and an object for
  \<^verbatim>\<open>status[$ne]=pending\<close>.
\<close>

datatype qval =
    QStr string
  | QArr "qval list"
  | QObj "(string \<times> qval) list"

text \<open>\<^verbatim>\<open>if (search)\<close>, \<^verbatim>\<open>if (status)\<close>: only the empty string is falsy among these values.\<close>

definition query_truthy :: "qval option \<Rightarrow> bool" where
  "query_truthy q = (case q of None \<Rightarrow> False | Some (QStr s) \<Rightarrow> s \<noteq> [] | Some _ \<Rightarrow> True)"

text \<open>
  What the model layer and the database make of the filter is outside the handler, and
  the two places where it is not plain equality are parameters of \<open>getTasks\<close>:
  \<^item> the regular expression engine takes the operand of \<^verbatim>\<open>$regex\<close> and the options and
    gives the compiled matcher, or \<open>None\<close> for an operand it rejects;
  \<^item> the condition engine takes a value given for \<^verbatim>\<open>status\<close> that is not a string (an
    object of query operators, an array) and gives the test on the stored status that
    it stands for, or \<open>None\<close> for a value it rejects.
  A rejected filter makes the query throw, and the handler answers 500. A value given
  for \<^verbatim>\<open>status\<close> that is a string is compared with the stored status for equality.
\<close>

type_synonym regex_engine = "qval \<Rightarrow> string \<Rightarrow> (string \<Rightarrow> bool) option"

type_synonym condition_engine = "qval \<Rightarrow> (string \<Rightarrow> bool) option"

datatype clause = Absent | Test "string \<Rightarrow> bool" | Rejected

fun holds :: "clause \<Rightarrow> string \<Rightarrow> bool" where
  "holds (Test p) x = p x"
| "holds _ x = True"

fun is_rejected :: "clause \<Rightarrow> bool" where
  "is_rejected Rejected = True"
| "is_rejected _ = False"

text \<open>\<^verbatim>\<open>if (search) filter.$or = [{ title: { $regex: search, $options: 'i' } }, ...]\<close>\<close>

definition search_clause :: "regex_engine \<Rightarrow> qval option \<Rightarrow> clause" where
  "search_clause regex search =
     (if query_truthy search then
        (case regex (the search) ''i'' of None \<Rightarrow> Rejected | Some m \<Rightarrow> Test m)
      else Absent)"

text \<open>\<^verbatim>\<open>if (status) filter.status = status\<close>\<close>

definition status_clause :: "condition_engine \<Rightarrow> qval option \<Rightarrow> clause" where
  "status_clause cond st =
     (if query_truthy st then
        (case the st of
           QStr s \<Rightarrow> Test (\<lambda>x. x = s)
         | v \<Rightarrow> (case cond v of None \<Rightarrow> Rejected | Some p \<Rightarrow> Test p))
      else Absent)"

definition matches_filter :: "objectid \<Rightarrow> clause \<Rightarrow> clause \<Rightarrow> task \<Rightarrow> bool" where
  "matches_filter uid sc stc t \<longleftrightarrow>
     userId t = uid \<and>
     (case sc of Test m \<Rightarrow> m (title t) \<or> m (description t) | _ \<Rightarrow> True) \<and>
     holds stc (status t)"

text \<open>\<^verbatim>\<open>.sort({ createdAt: -1 })\<close>: newest first.\<close>

definition sort_newest_first :: "task list \<Rightarrow> task list" where
  "sort_newest_first ts = rev (sort_key createdAt ts)"

definition getTasks ::
  "regex_engine \<Rightarrow> condition_engine \<Rightarrow> collection \<Rightarrow> objectid \<Rightarrow>
     qval option \<Rightarrow> qval option \<Rightarrow> response" where
  "getTasks regex cond db uid search st =
     (let sc = search_clause regex search; stc = status_clause cond st in
      if is_rejected sc \<or> is_rejected stc then ServerError
      else TaskList (sort_newest_first (filter (matches_filter uid sc stc) db)))"

subsection \<open>createTask\<close>

text \<open>
  \<^verbatim>\<open>new Task({ title, description, userId })\<close>: the two strings go through their
  setters, \<^verbatim>\<open>status\<close> takes its default, the document gets a generated id and, when it
  is saved, its timestamps. \<open>None\<close> when a value does not cast.
\<close>

definition new_Task :: "objectid \<Rightarrow> nat \<Rightarrow> jsval \<Rightarrow> jsval \<Rightarrow> objectid \<Rightarrow> task option" where
  "new_Task new_id now ttl descr uid =
     (case (set_trimmed ttl, set_trimmed descr) of
        (Some t, Some d) \<Rightarrow>
          Some \<lparr>task_id = new_id, title = t, description = d, status = ''pending'',
                userId = uid, createdAt = now, updatedAt = now\<rparr>
      | _ \<Rightarrow> None)"

text \<open>Saving a new document: validation, then an insert that the unique index on the id can refuse.\<close>

definition save_new :: "collection \<Rightarrow> task \<Rightarrow> collection option" where
  "save_new db t =
     (if validate t \<and> task_id t \<notin> set (map task_id db) then Some (db @ [t]) else None)"

definition createTask ::
  "collection \<Rightarrow> objectid \<Rightarrow> body \<Rightarrow> objectid \<Rightarrow> nat \<Rightarrow> response \<times> collection" where
  "createTask db uid b new_id now =
     (let ttl = field b ''title''; descr = field b ''description'' in
      if \<not> truthy ttl \<or> \<not> truthy descr then (TitleDescriptionRequired, db)
      else
        (case new_Task new_id now ttl descr uid of
           None \<Rightarrow> (ServerError, db)
         | Some t \<Rightarrow>
             (case save_new db t of
                None \<Rightarrow> (ServerError, db)
              | Some db' \<Rightarrow> (TaskCreated t, db'))))"

subsection \<open>updateTask and deleteTask\<close>

text \<open>\<^verbatim>\<open>findOne({ _id: id, userId })\<close>: the first document that matches both.\<close>

definition findOne :: "collection \<Rightarrow> objectid \<Rightarrow> objectid \<Rightarrow> task option" where
  "findOne db oid uid = find (\<lambda>t. task_id t = oid \<and> userId t = uid) db"

text \<open>The three guarded assignments of \<^verbatim>\<open>updateTask\<close>; \<open>None\<close> when a value does not cast.\<close>

definition assign_title :: "jsval \<Rightarrow> task \<Rightarrow> task option" where
  "assign_title v t =
     (if truthy v then map_option (\<lambda>s. t\<lparr>title := s\<rparr>) (set_trimmed v) else Some t)"

definition assign_description :: "jsval \<Rightarrow> task \<Rightarrow> task option" where
  "assign_description v t =
     (if truthy v then map_option (\<lambda>s. t\<lparr>description := s\<rparr>) (set_trimmed v) else Some t)"

definition assign_status :: "jsval \<Rightarrow> task \<Rightarrow> task" where
  "assign_status v t =
     (if truthy v \<and> v \<in> set (map JStr status_enum)
      then (case v of JStr s \<Rightarrow> t\<lparr>status := s\<rparr> | _ \<Rightarrow> t) else t)"

definition assign_fields :: "body \<Rightarrow> task \<Rightarrow> task option" where
  "assign_fields b t =
     (case assign_title (field b ''title'') t of
        None \<Rightarrow> None
      | Some t1 \<Rightarrow>
          (case assign_description (field b ''description'') t1 of
             None \<Rightarrow> None
           | Some t2 \<Rightarrow> Some (assign_status (field b ''status'') t2)))"

text \<open>Writing a document back: the first document with its id is replaced.\<close>

fun replace_doc :: "task \<Rightarrow> collection \<Rightarrow> collection" where
  "replace_doc t [] = []"
| "replace_doc t (x # xs) = (if task_id x = task_id t then t # xs else x # replace_doc t xs)"

text \<open>
  Saving a loaded document: validation, the refreshed \<^verbatim>\<open>updatedAt\<close> when a path was
  modified, and the write.
\<close>

definition save_existing :: "collection \<Rightarrow> task \<Rightarrow> task \<Rightarrow> nat \<Rightarrow> (task \<times> collection) option" where
  "save_existing db old t now =
     (if validate t then
        (let t' = (if t = old then t else t\<lparr>updatedAt := now\<rparr>) in Some (t', replace_doc t' db))
      else None)"

definition updateTask ::
  "collection \<Rightarrow> objectid \<Rightarrow> string \<Rightarrow> body \<Rightarrow> nat \<Rightarrow> response \<times> collection" where
  "updateTask db uid id_param b now =
     (case castObjectId id_param of
        None \<Rightarrow> (ServerError, db)
      | Some oid \<Rightarrow>
          (case findOne db oid uid of
             None \<Rightarrow> (TaskNotFound, db)
           | Some old \<Rightarrow>
               (case assign_fields b old of
                  None \<Rightarrow> (ServerError, db)
                | Some t \<Rightarrow>
                    (case save_existing db old t now of
                       None \<Rightarrow> (ServerError, db)
                     | Some (t', db') \<Rightarrow> (TaskUpdated t', db')))))"

text \<open>\<^verbatim>\<open>findOneAndDelete({ _id: id, userId })\<close>: the first matching document is removed.\<close>

fun remove_first :: "(task \<Rightarrow> bool) \<Rightarrow> collection \<Rightarrow> collection" where
  "remove_first P [] = []"
| "remove_first P (x # xs) = (if P x then xs else x # remove_first P xs)"

definition deleteTask :: "collection \<Rightarrow> objectid \<Rightarrow> string \<Rightarrow> response \<times> collection" where
  "deleteTask db uid id_param =
     (case castObjectId id_param of
        None \<Rightarrow> (ServerError, db)
      | Some oid \<Rightarrow>
          (case findOne db oid uid of
             None \<Rightarrow> (TaskNotFound, db)
           | Some _ \<Rightarrow> (TaskDeleted, remove_first (\<lambda>t. task_id t = oid \<and> userId t = uid) db)))"

subsection \<open>A fragment of the database's regular expressions\<close>

text \<open>
  The database compiles the \<^verbatim>\<open>search\<close> string as a Perl-compatible regular
  expression. The engine below covers the patterns built from ordinary characters and
  the dot: an ordinary character matches itself (under the option \<^verbatim>\<open>i\<close> up to the case
  of the letters A to Z), the dot matches any character but a line feed, and the
  pattern may match anywhere in the subject. A pattern that holds any other
  metacharacter, and an operand that is not a string, are outside the fragment and get
  no matcher here. Of these only the pattern of a lone opening parenthesis is used
  below: the database cannot compile it and rejects the query.
\<close>

definition is_meta :: "char \<Rightarrow> bool" where
  "is_meta c = (c \<in> set [CHR 0x5C, CHR ''^'', CHR ''$'', CHR ''.'', CHR ''|'', CHR ''?'', CHR ''*'',
                          CHR ''+'', CHR ''('', CHR '')'', CHR ''['', CHR '']'', CHR ''{'', CHR ''}''])"

datatype atom = Lit char | AnyChar

fun parse_atoms :: "string \<Rightarrow> atom list option" where
  "parse_atoms [] = Some []"
| "parse_atoms (c # cs) =
     (if c = CHR ''.'' then map_option ((#) AnyChar) (parse_atoms cs)
      else if is_meta c then None
      else map_option ((#) (Lit c)) (parse_atoms cs))"

fun atom_matches :: "bool \<Rightarrow> atom \<Rightarrow> char \<Rightarrow> bool" where
  "atom_matches caseless (Lit l) c = (if caseless then to_lower l = to_lower c else l = c)"
| "atom_matches caseless AnyChar c = (c \<noteq> CHR 0x0A)"

fun match_here :: "bool \<Rightarrow> atom list \<Rightarrow> string \<Rightarrow> bool" where
  "match_here caseless [] s = True"
| "match_here caseless (a # as) [] = False"
| "match_here caseless (a # as) (c # cs) = (atom_matches caseless a c \<and> match_here caseless as cs)"

fun match_anywhere :: "bool \<Rightarrow> atom list \<Rightarrow> string \<Rightarrow> bool" where
  "match_anywhere caseless as [] = match_here caseless as []"
| "match_anywhere caseless as (c # cs) =
     (match_here caseless as (c # cs) \<or> match_anywhere caseless as cs)"

definition pcre_fragment :: regex_engine where
  "pcre_fragment operand opts =
     (case operand of
        QStr pattern \<Rightarrow>
          map_option (\<lambda>as. match_anywhere (CHR ''i'' \<in> set opts) as) (parse_atoms pattern)
      | _ \<Rightarrow> None)"

subsection \<open>A fragment of the database's query operators\<close>

text \<open>
  For a value given for \<^verbatim>\<open>status\<close> that is an object, the database reads the keys as
  query operators. The engine below covers an object of one operator out of
  \<^verbatim>\<open>$eq\<close>, \<^verbatim>\<open>$ne\<close> (a string operand), \<^verbatim>\<open>$in\<close> and \<^verbatim>\<open>$nin\<close> (an array of strings).
  Any other value is outside the fragment and gets no test here; nothing below is stated
  about such values for this engine.
\<close>

fun strings_of :: "qval list \<Rightarrow> string list option" where
  "strings_of [] = Some []"
| "strings_of (QStr s # vs) = map_option ((#) s) (strings_of vs)"
| "strings_of (_ # vs) = None"

fun operators_fragment :: condition_engine where
  "operators_fragment (QObj [(op, QStr s)]) =
     (if op = ''$eq'' then Some (\<lambda>x. x = s)
      else if op = ''$ne'' then Some (\<lambda>x. x \<noteq> s)
      else None)"
| "operators_fragment (QObj [(op, QArr vs)]) =
     (case strings_of vs of
        None \<Rightarrow> None
      | Some ss \<Rightarrow>
          if op = ''$in'' then Some (\<lambda>x. x \<in> set ss)
          else if op = ''$nin'' then Some (\<lambda>x. x \<notin> set ss)
          else None)"
| "operators_fragment _ = None"

text \<open>
  In the words of the specification: \<open>s\<close> occurs case-insensitively as a substring of
  \<open>x\<close>. This is the reading that the search of \<open>getTasks\<close> is compared with.
\<close>

definition occurs_ci :: "string \<Rightarrow> string \<Rightarrow> bool" where
  "occurs_ci s x \<longleftrightarrow> sublist (map to_lower s) (map to_lower x)"

subsection \<open>Collections that the handlers can produce\<close>

inductive reachable :: "collection \<Rightarrow> bool" where
  reachable_empty: "reachable []"
| reachable_create: "reachable db \<Longrightarrow> reachable (snd (createTask db uid b new_id now))"
| reachable_update: "reachable db \<Longrightarrow> reachable (snd (updateTask db uid id_param b now))"
| reachable_delete: "reachable db \<Longrightarrow> reachable (snd (deleteTask db uid id_param))"

text \<open>The documents of a caller, and those of everybody else.\<close>

definition own :: "objectid \<Rightarrow> collection \<Rightarrow> collection" where
  "own uid db = filter (\<lambda>t. userId t = uid) db"

definition foreign :: "objectid \<Rightarrow> collection \<Rightarrow> collection" where
  "foreign uid db = filter (\<lambda>t. userId t \<noteq> uid) db"

text \<open>The engine compiles the search string of a request, if the request has one.\<close>

definition regex_accepts :: "regex_engine \<Rightarrow> qval option \<Rightarrow> bool" where
  "regex_accepts regex search \<longleftrightarrow> (query_truthy search \<longrightarrow> regex (the search) ''i'' \<noteq> None)"

text \<open>
  The database takes the value given for \<^verbatim>\<open>status\<close>, if the request has one. A string
  is always taken.
\<close>

definition cond_accepts :: "condition_engine \<Rightarrow> qval option \<Rightarrow> bool" where
  "cond_accepts cond st \<longleftrightarrow> \<not> is_rejected (status_clause cond st)"

subsection \<open>Example data\<close>

definition alice :: objectid where
  "alice = ObjectId ''aaaaaaaaaaaaaaaaaaaaaaaa''"

definition bob :: objectid where
  "bob = ObjectId ''bbbbbbbbbbbbbbbbbbbbbbbb''"

definition milk_task :: task where
  "milk_task = \<lparr>task_id = ObjectId ''000000000000000000000001'', title = ''Buy Milk'',
                 description = ''From the shop'', status = ''pending'', userId = alice,
                 createdAt = 10, updatedAt = 10\<rparr>"

definition rent_task :: task where
  "rent_task = \<lparr>task_id = ObjectId ''000000000000000000000002'', title = ''Pay rent'',
                 description = ''Before Friday'', status = ''completed'', userId = bob,
                 createdAt = 20, updatedAt = 25\<rparr>"

definition report_task :: task where
  "report_task = \<lparr>task_id = ObjectId ''000000000000000000000003'', title = ''Write report'',
                   description = ''Quarterly numbers'', status = ''completed'', userId = alice,
                   createdAt = 30, updatedAt = 30\<rparr>"

definition example_db :: collection where
  "example_db = [milk_task, rent_task, report_task]"

lemmas example_defs =
  example_db_def milk_task_def rent_task_def report_task_def alice_def bob_def

lemmas getTasks_eval =
  getTasks_def Let_def search_clause_def status_clause_def query_truthy_def matches_filter_def
  sort_newest_first_def

section \<open>Properties\<close>

subsection \<open>Lookups and writes\<close>

lemma findOne_Some:
  "findOne db oid uid = Some t \<Longrightarrow> t \<in> set db \<and> task_id t = oid \<and> userId t = uid"
  unfolding findOne_def by (auto simp: find_Some_iff)

lemma findOne_None:
  "findOne db oid uid = None \<longleftrightarrow> \<not> (\<exists>t \<in> set db. task_id t = oid \<and> userId t = uid)"
  unfolding findOne_def by (auto simp: find_None_iff)

lemma findOne_own: "findOne (own uid db) oid uid = findOne db oid uid"
  unfolding findOne_def own_def by (induction db) auto

lemma assign_fields_frame:
  "assign_fields b t = Some t' \<Longrightarrow>
     task_id t' = task_id t \<and> userId t' = userId t \<and> createdAt t' = createdAt t"
  by (auto simp: assign_fields_def assign_title_def assign_description_def assign_status_def
      split: option.splits if_splits jsval.splits)

lemma save_existing_frame:
  "save_existing db old t now = Some (t', db') \<Longrightarrow>
     task_id t' = task_id t \<and> userId t' = userId t \<and> createdAt t' = createdAt t \<and>
     title t' = title t \<and> description t' = description t \<and> status t' = status t \<and>
     validate t \<and> db' = replace_doc t' db"
  by (auto simp: save_existing_def Let_def split: if_splits)

subsection \<open>Documents of other owners\<close>

lemma foreign_replace_doc:
  "distinct (map task_id db) \<Longrightarrow> old \<in> set db \<Longrightarrow> task_id t = task_id old \<Longrightarrow>
   userId old = uid \<Longrightarrow> userId t = uid \<Longrightarrow> foreign uid (replace_doc t db) = foreign uid db"
  unfolding foreign_def by (induction db) (auto simp: image_iff)

lemma foreign_remove_first:
  "(\<And>t. P t \<Longrightarrow> userId t = uid) \<Longrightarrow> foreign uid (remove_first P db) = foreign uid db"
  unfolding foreign_def by (induction db) auto

lemma foreign_updateTask:
  "distinct (map task_id db) \<Longrightarrow> foreign uid (snd (updateTask db uid i b now)) = foreign uid db"
  by (auto simp: updateTask_def split: option.splits
      dest!: findOne_Some assign_fields_frame save_existing_frame intro!: foreign_replace_doc)

lemma foreign_deleteTask: "foreign uid (snd (deleteTask db uid i)) = foreign uid db"
  by (auto simp: deleteTask_def split: option.splits intro!: foreign_remove_first)

lemma fst_updateTask_own:
  "fst (updateTask (own uid db) uid i b now) = fst (updateTask db uid i b now)"
  by (auto simp: updateTask_def findOne_own save_existing_def Let_def split: option.splits)

lemma fst_deleteTask_own: "fst (deleteTask (own uid db) uid i) = fst (deleteTask db uid i)"
  by (auto simp: deleteTask_def findOne_own split: option.splits)

lemma getTasks_own: "getTasks regex cond (own uid db) uid search st = getTasks regex cond db uid search st"
proof -
  have "filter (matches_filter uid sc stc) (own uid db) = filter (matches_filter uid sc stc) db"
    for sc stc
    unfolding own_def by (induction db) (auto simp: matches_filter_def)
  then show ?thesis by (simp add: getTasks_def Let_def)
qed

lemma getTasks_scoped:
  "t \<in> set (tasks_of (getTasks regex cond db uid search st)) \<Longrightarrow> userId t = uid"
  by (auto simp: getTasks_def Let_def sort_newest_first_def matches_filter_def split: if_splits)

subsection \<open>Update and delete\<close>

lemma map_task_id_replace_doc: "map task_id (replace_doc t db) = map task_id db"
  by (induction db) auto

lemma findOne_replace_doc:
  "distinct (map task_id db) \<Longrightarrow> old \<in> set db \<Longrightarrow> task_id t = task_id old \<Longrightarrow>
   findOne (replace_doc t db) (task_id t) (userId t) = Some t"
  unfolding findOne_def by (induction db) (auto simp: image_iff)

lemma set_replace_doc: "set (replace_doc t db) \<subseteq> insert t (set db)"
  by (induction db) auto

lemma assign_status_cases:
  "assign_status v t = (if v = JStr ''pending'' \<or> v = JStr ''completed''
                        then t\<lparr>status := (case v of JStr s \<Rightarrow> s | _ \<Rightarrow> status t)\<rparr> else t)"
  by (auto simp: assign_status_def status_enum_def split: jsval.splits)

lemma updateTask_failure:
  "http_status (fst (updateTask db uid i b now)) \<noteq> 200 \<Longrightarrow> snd (updateTask db uid i b now) = db"
  by (auto simp: updateTask_def split: option.splits)

lemma deleteTask_failure:
  "http_status (fst (deleteTask db uid i)) \<noteq> 200 \<Longrightarrow> snd (deleteTask db uid i) = db"
  by (auto simp: deleteTask_def split: option.splits)

lemma updateTask_404:
  assumes "castObjectId i = Some oid"
  shows "http_status (fst (updateTask db uid i b now)) = 404 \<longleftrightarrow>
     \<not> (\<exists>t \<in> set db. task_id t = oid \<and> userId t = uid)"
proof (cases "findOne db oid uid")
  case None
  then have "\<not> (\<exists>t \<in> set db. task_id t = oid \<and> userId t = uid)"
    using findOne_None by blast
  with assms None show ?thesis
    by (auto simp: updateTask_def)
next
  case (Some old)
  then have "findOne db oid uid \<noteq> None" by simp
  then have "\<exists>t \<in> set db. task_id t = oid \<and> userId t = uid"
    by (simp add: findOne_None)
  with assms Some show ?thesis
    by (auto simp: updateTask_def split: option.splits)
qed

lemma deleteTask_404:
  assumes "castObjectId i = Some oid"
  shows "http_status (fst (deleteTask db uid i)) = 404 \<longleftrightarrow>
     \<not> (\<exists>t \<in> set db. task_id t = oid \<and> userId t = uid)"
proof (cases "findOne db oid uid")
  case None
  then have "\<not> (\<exists>t \<in> set db. task_id t = oid \<and> userId t = uid)"
    using findOne_None by blast
  with assms None show ?thesis
    by (auto simp: deleteTask_def)
next
  case (Some old)
  then have "findOne db oid uid \<noteq> None" by simp
  then have "\<exists>t \<in> set db. task_id t = oid \<and> userId t = uid"
    by (simp add: findOne_None)
  with assms Some show ?thesis
    by (auto simp: deleteTask_def split: option.splits)
qed

lemma updateTask_success:
  assumes d: "distinct (map task_id db)" and c: "castObjectId i = Some oid"
    and f: "findOne db oid uid = Some old" and v: "validate old"
    and ot: "truthy (field b ''title'') \<longrightarrow>
            (\<exists>s. set_trimmed (field b ''title'') = Some s \<and> s \<noteq> [] \<and> length s \<le> 100)"
    and od: "truthy (field b ''description'') \<longrightarrow>
            (\<exists>s. set_trimmed (field b ''description'') = Some s \<and> s \<noteq> [] \<and> length s \<le> 500)"
  shows "\<exists>t'. updateTask db uid i b now = (TaskUpdated t', replace_doc t' db) \<and>
           findOne (replace_doc t' db) oid uid = Some t' \<and>
           task_id t' = oid \<and> userId t' = uid \<and> createdAt t' = createdAt old \<and>
           title t' = (if truthy (field b ''title'') then the (set_trimmed (field b ''title''))
                       else title old) \<and>
           description t' = (if truthy (field b ''description'')
                             then the (set_trimmed (field b ''description'')) else description old) \<and>
           status t' = (case field b ''status'' of
                          JStr s \<Rightarrow> if s \<in> set status_enum then s else status old
                        | _ \<Rightarrow> status old)"
proof -
  from f have o: "old \<in> set db" "task_id old = oid" "userId old = uid"
    by (auto dest: findOne_Some)
  define nt where "nt = (if truthy (field b ''title'') then the (set_trimmed (field b ''title''))
                       else title old)"
  define nd where "nd = (if truthy (field b ''description'')
                             then the (set_trimmed (field b ''description'')) else description old)"
  define ns where "ns = (case field b ''status'' of
                          JStr s \<Rightarrow> if s \<in> set status_enum then s else status old
                        | _ \<Rightarrow> status old)"
  define t where "t = old\<lparr>title := nt, description := nd, status := ns\<rparr>"
  have a1: "assign_title (field b ''title'') old = Some (old\<lparr>title := nt\<rparr>)"
    using ot by (auto simp: assign_title_def nt_def)
  have a2: "assign_description (field b ''description'') (old\<lparr>title := nt\<rparr>)
              = Some (old\<lparr>title := nt, description := nd\<rparr>)"
    using od by (auto simp: assign_description_def nd_def)
  have a3: "assign_status (field b ''status'') (old\<lparr>title := nt, description := nd\<rparr>) = t"
    by (auto simp: assign_status_def ns_def t_def status_enum_def split: jsval.splits)
  have a: "assign_fields b old = Some t"
    by (simp add: assign_fields_def a1 a2 a3)
  have vt: "validate t"
    using v ot od
    by (auto simp: validate_def t_def nt_def nd_def ns_def status_enum_def split: jsval.splits)
  define t' where "t' = (if t = old then t else t\<lparr>updatedAt := now\<rparr>)"
  have s: "save_existing db old t now = Some (t', replace_doc t' db)"
    using vt by (simp add: save_existing_def t'_def Let_def)
  have tf: "task_id t = oid" "userId t = uid" "createdAt t = createdAt old"
    "title t = nt" "description t = nd" "status t = ns"
    using o by (simp_all add: t_def)
  have t'f: "task_id t' = oid" "userId t' = uid" "createdAt t' = createdAt old"
    "title t' = nt" "description t' = nd" "status t' = ns"
    using tf by (auto simp: t'_def)
  have fo: "findOne (replace_doc t' db) oid uid = Some t'"
    using findOne_replace_doc[OF d o(1), of t'] t'f o by simp
  have "updateTask db uid i b now = (TaskUpdated t', replace_doc t' db)"
    using c f a s by (simp add: updateTask_def)
  with fo t'f show ?thesis by (auto simp: nt_def nd_def ns_def)
qed

subsection \<open>Owner scoping\<close>

text \<open>
  Claim C1. Every query carries the caller's id. The tasks that List returns all belong
  to the caller. Update and Delete do not mutate a task of another owner: the documents
  of the other owners are the same before and after, whatever task id is supplied. They
  do not read one either: the response is the one the handler gives on the caller's own
  documents alone. The ids of a collection are distinct, as the database's index on the
  id keeps them.
\<close>

theorem C1_owner_scoping:
  assumes "distinct (map task_id db)"
  shows "(\<forall>t \<in> set (tasks_of (getTasks regex cond db uid search st)). userId t = uid) \<and>
         getTasks regex cond db uid search st = getTasks regex cond (own uid db) uid search st \<and>
         foreign uid (snd (updateTask db uid i b now)) = foreign uid db \<and>
         fst (updateTask db uid i b now) = fst (updateTask (own uid db) uid i b now) \<and>
         foreign uid (snd (deleteTask db uid i)) = foreign uid db \<and>
         fst (deleteTask db uid i) = fst (deleteTask (own uid db) uid i)"
  using assms
  by (simp add: getTasks_scoped getTasks_own foreign_updateTask foreign_deleteTask
      fst_updateTask_own fst_deleteTask_own)

text \<open>
  An instance: Alice asks for Bob's task by its id. She is told that there is no such
  task, and Bob's documents stay as they were.
\<close>

theorem C1_owner_scoping_witness:
  "distinct (map task_id example_db) \<and>
   map userId (tasks_of (getTasks pcre_fragment operators_fragment example_db alice None None))
     = [alice, alice] \<and>
   foreign alice (snd (updateTask example_db alice ''000000000000000000000002''
                         [(''title'', JStr ''Mine now'')] 40)) = [rent_task] \<and>
   foreign alice (snd (deleteTask example_db alice ''000000000000000000000002'')) = [rent_task]"
proof -
  have d: "distinct (map task_id example_db)"
    by (simp add: example_defs)
  have f: "foreign alice example_db = [rent_task]"
    by (simp add: foreign_def example_defs)
  have l: "map userId (tasks_of (getTasks pcre_fragment operators_fragment example_db alice None None))
             = [alice, alice]"
    by (simp add: getTasks_eval example_defs)
  from C1_owner_scoping [OF d] f l show ?thesis
    using d by simp
qed

subsection \<open>Not found\<close>

text \<open>
  Claim C2, as stated, asks for NotFound (404) whenever no task with the given id is
  owned by the caller, for every task id. An id that is not 24 hexadecimal digits does
  not cast: the lookup throws, and both handlers answer 500, here on an empty collection,
  where no task exists at all.
\<close>

theorem C2_malformed_id_counterexample:
  "http_status (fst (updateTask [] alice ''abc'' [(''title'', JStr ''New'')] 40)) = 500 \<and>
   http_status (fst (deleteTask [] alice ''abc'')) = 500"
  by (simp add: updateTask_def deleteTask_def castObjectId_def)

text \<open>
  Claim C2, amended. For every caller and every task id that is a well-formed object id
  (24 hexadecimal digits), Update and Delete answer NotFound (404) exactly when the
  collection holds no task with that id owned by the caller, so that a task that does
  not exist and a task of another owner give the same answer. For every task id,
  well-formed or not, an Update or Delete that does not answer 200 leaves the collection
  as it was: no document is created, modified or removed.
\<close>

theorem C2_not_found:
  assumes "castObjectId i = Some oid"
  shows "(http_status (fst (updateTask db uid i b now)) = 404 \<longleftrightarrow>
            \<not> (\<exists>t \<in> set db. task_id t = oid \<and> userId t = uid)) \<and>
         (http_status (fst (deleteTask db uid i)) = 404 \<longleftrightarrow>
            \<not> (\<exists>t \<in> set db. task_id t = oid \<and> userId t = uid)) \<and>
         (http_status (fst (updateTask db uid j b now)) \<noteq> 200 \<longrightarrow>
            snd (updateTask db uid j b now) = db) \<and>
         (http_status (fst (deleteTask db uid j)) \<noteq> 200 \<longrightarrow>
            snd (deleteTask db uid j) = db)"
  using updateTask_404 [OF assms] deleteTask_404 [OF assms] updateTask_failure deleteTask_failure
  by blast

text \<open>An instance: Alice names Bob's task; both handlers answer 404 and change nothing.\<close>

theorem C2_not_found_witness:
  "castObjectId ''000000000000000000000002'' = Some (task_id rent_task) \<and>
   http_status (fst (updateTask example_db alice ''000000000000000000000002''
                       [(''title'', JStr ''Mine now'')] 40)) = 404 \<and>
   snd (updateTask example_db alice ''000000000000000000000002''
          [(''title'', JStr ''Mine now'')] 40) = example_db \<and>
   http_status (fst (deleteTask example_db alice ''000000000000000000000002'')) = 404 \<and>
   snd (deleteTask example_db alice ''000000000000000000000002'') = example_db"
proof -
  have c: "castObjectId ''000000000000000000000002'' = Some (task_id rent_task)"
    by (simp add: castObjectId_def is_hex_def to_lower_def example_defs)
  have n: "\<not> (\<exists>t \<in> set example_db. task_id t = task_id rent_task \<and> userId t = alice)"
    by (simp add: example_defs)
  from C2_not_found [OF c, of example_db alice "[(''title'', JStr ''Mine now'')]" 40
      "''000000000000000000000002''"] n c
  show ?thesis by simp
qed

subsection \<open>Create reads two fields\<close>

text \<open>
  Claim C10. Create reads \<^verbatim>\<open>title\<close> and \<^verbatim>\<open>description\<close> from the request body and
  nothing else: two bodies that agree on these two fields get the same response and
  leave the same collection, whatever else they carry (a \<^verbatim>\<open>status\<close>, a \<^verbatim>\<open>userId\<close>).
  Every task that Create returns has status \<^verbatim>\<open>pending\<close> and the caller as its owner.
\<close>

theorem C10_create_ignores_other_fields:
  "(field b' ''title'' = field b ''title'' \<and> field b' ''description'' = field b ''description''
      \<longrightarrow> createTask db uid b' new_id now = createTask db uid b new_id now) \<and>
   (\<forall>t. fst (createTask db uid b new_id now) = TaskCreated t \<longrightarrow>
      status t = ''pending'' \<and> userId t = uid)"
  by (auto simp: createTask_def Let_def new_Task_def save_new_def split: option.splits if_splits)

text \<open>
  An instance: a body that also carries \<^verbatim>\<open>status: "completed"\<close> and Bob's id as
  \<^verbatim>\<open>userId\<close> creates Alice's pending task, as the body without them does.
\<close>

theorem C10_create_ignores_other_fields_witness:
  "createTask example_db alice
     [(''title'', JStr ''Call mum''), (''description'', JStr ''On Sunday''),
      (''status'', JStr ''completed''), (''userId'', JStr ''bbbbbbbbbbbbbbbbbbbbbbbb'')]
     (ObjectId ''000000000000000000000004'') 40
   = createTask example_db alice
     [(''title'', JStr ''Call mum''), (''description'', JStr ''On Sunday'')]
     (ObjectId ''000000000000000000000004'') 40 \<and>
   fst (createTask example_db alice
     [(''title'', JStr ''Call mum''), (''description'', JStr ''On Sunday''),
      (''status'', JStr ''completed''), (''userId'', JStr ''bbbbbbbbbbbbbbbbbbbbbbbb'')]
     (ObjectId ''000000000000000000000004'') 40)
   = TaskCreated \<lparr>task_id = ObjectId ''000000000000000000000004'', title = ''Call mum'',
       description = ''On Sunday'', status = ''pending'', userId = alice,
       createdAt = 40, updatedAt = 40\<rparr>"
proof -
  let ?b' = "[(''title'', JStr ''Call mum''), (''description'', JStr ''On Sunday''),
      (''status'', JStr ''completed''), (''userId'', JStr ''bbbbbbbbbbbbbbbbbbbbbbbb'')]"
  let ?b = "[(''title'', JStr ''Call mum''), (''description'', JStr ''On Sunday'')]"
  have f: "field ?b' ''title'' = field ?b ''title'' \<and>
           field ?b' ''description'' = field ?b ''description''"
    by (simp add: field_def)
  have e: "createTask example_db alice ?b' (ObjectId ''000000000000000000000004'') 40
         = createTask example_db alice ?b (ObjectId ''000000000000000000000004'') 40"
    using C10_create_ignores_other_fields
      [of ?b' ?b example_db alice "ObjectId ''000000000000000000000004''" 40] f
    by blast
  have r: "fst (createTask example_db alice ?b (ObjectId ''000000000000000000000004'') 40)
     = TaskCreated \<lparr>task_id = ObjectId ''000000000000000000000004'', title = ''Call mum'',
       description = ''On Sunday'', status = ''pending'', userId = alice,
       createdAt = 40, updatedAt = 40\<rparr>"
    by (simp add: createTask_def field_def new_Task_def set_trimmed_def trim_def is_space_def
        save_new_def validate_def status_enum_def example_defs)
  from e r show ?thesis by simp
qed

subsection \<open>Order of the list\<close>

lemma sorted_wrt_newest_first:
  "sorted_wrt (\<lambda>a b. createdAt b \<le> createdAt a) (sort_newest_first ts)"
proof -
  have "sorted (map createdAt (sort_key createdAt ts))"
    by (rule sorted_sort_key)
  then have "sorted_wrt (\<lambda>a b. createdAt a \<le> createdAt b) (sort_key createdAt ts)"
    by (simp add: sorted_map)
  then show ?thesis
    by (simp add: sort_newest_first_def sorted_wrt_rev)
qed

lemma set_sort_newest_first: "set (sort_newest_first ts) = set ts"
  by (simp add: sort_newest_first_def)

lemma getTasks_accepted:
  "regex_accepts regex search \<Longrightarrow> cond_accepts cond st \<Longrightarrow>
   getTasks regex cond db uid search st =
     TaskList (sort_newest_first (filter (matches_filter uid
        (search_clause regex search) (status_clause cond st)) db))"
  by (auto simp: getTasks_def Let_def regex_accepts_def cond_accepts_def search_clause_def
      split: option.splits)

lemma getTasks_subset: "set (tasks_of (getTasks regex cond db uid search st)) \<subseteq> set db"
  by (auto simp: getTasks_def Let_def set_sort_newest_first)

text \<open>
  Claim C7. Whatever the caller and the filters, the tasks that List returns are in
  descending order of \<^verbatim>\<open>createdAt\<close>, newest first. When the database takes the filter
  (no search string or one that it compiles, no status value or one that it takes, as
  it does every string), List answers 200 with a list; with nothing to return, as for a
  caller who owns no task, the list is empty and the answer is still 200.
\<close>

theorem C7_newest_first:
  "sorted_wrt (\<lambda>a b. createdAt b \<le> createdAt a)
     (tasks_of (getTasks regex cond db uid search st)) \<and>
   (regex_accepts regex search \<and> cond_accepts cond st \<longrightarrow>
      getTasks regex cond db uid search st
        = TaskList (tasks_of (getTasks regex cond db uid search st)) \<and>
      http_status (getTasks regex cond db uid search st) = 200) \<and>
   (regex_accepts regex search \<and> cond_accepts cond st \<and> own uid db = [] \<longrightarrow>
      getTasks regex cond db uid search st = TaskList []) \<and>
   (\<forall>s. cond_accepts cond (Some (QStr s))) \<and> cond_accepts cond None"
proof -
  have 1: "sorted_wrt (\<lambda>a b. createdAt b \<le> createdAt a)
             (tasks_of (getTasks regex cond db uid search st))"
    by (simp add: getTasks_def Let_def sorted_wrt_newest_first)
  have 2: "getTasks regex cond db uid search st
             = TaskList (tasks_of (getTasks regex cond db uid search st)) \<and>
      http_status (getTasks regex cond db uid search st) = 200"
    if "regex_accepts regex search" "cond_accepts cond st"
    using getTasks_accepted [OF that] by simp
  have 3: "getTasks regex cond db uid search st = TaskList []"
    if "regex_accepts regex search" "cond_accepts cond st" "own uid db = []"
  proof -
    have "filter (matches_filter uid sc stc) db = []" for sc stc
      using that(3) by (auto simp: own_def filter_empty_conv matches_filter_def)
    then show ?thesis
      using getTasks_accepted [OF that(1,2)] by (simp add: sort_newest_first_def)
  qed
  have 4: "cond_accepts cond (Some (QStr s))" for s
    by (simp add: cond_accepts_def status_clause_def)
  have 5: "cond_accepts cond None"
    by (simp add: cond_accepts_def status_clause_def query_truthy_def)
  from 1 2 3 4 5 show ?thesis by blast
qed

text \<open>
  An instance: Alice's two tasks come back newest first; a caller without tasks gets the
  empty list with status 200.
\<close>

theorem C7_newest_first_witness:
  "regex_accepts pcre_fragment (Some (QStr ''e'')) \<and>
   getTasks pcre_fragment operators_fragment example_db alice (Some (QStr ''e'')) None
     = TaskList [report_task, milk_task] \<and>
   createdAt milk_task \<le> createdAt report_task \<and>
   own (ObjectId ''cccccccccccccccccccccccc'') example_db = [] \<and>
   getTasks pcre_fragment operators_fragment example_db (ObjectId ''cccccccccccccccccccccccc'')
     None (Some (QStr ''pending'')) = TaskList [] \<and>
   http_status (getTasks pcre_fragment operators_fragment example_db
     (ObjectId ''cccccccccccccccccccccccc'') None (Some (QStr ''pending''))) = 200"
proof -
  have a: "regex_accepts pcre_fragment (Some (QStr ''e''))"
    by (simp add: regex_accepts_def query_truthy_def pcre_fragment_def is_meta_def)
  have b: "regex_accepts pcre_fragment None"
    by (simp add: regex_accepts_def query_truthy_def)
  have l: "tasks_of (getTasks pcre_fragment operators_fragment example_db alice
                       (Some (QStr ''e'')) None) = [report_task, milk_task]"
    by (simp add: getTasks_eval pcre_fragment_def is_meta_def to_lower_def example_defs)
  have o: "own (ObjectId ''cccccccccccccccccccccccc'') example_db = []"
    by (simp add: own_def example_defs)
  from C7_newest_first [of pcre_fragment operators_fragment example_db alice
      "Some (QStr ''e'')" None]
    C7_newest_first [of pcre_fragment operators_fragment example_db
      "ObjectId ''cccccccccccccccccccccccc''" None "Some (QStr ''pending'')"]
    a b l o
  show ?thesis by (simp add: example_defs)
qed

subsection \<open>Status filter\<close>

lemma filter_sort_newest_first:
  "filter P (sort_newest_first ts) = sort_newest_first (filter P ts)"
  by (simp add: sort_newest_first_def rev_filter [symmetric] filter_sort)

lemma getTasks_status_string:
  assumes "s \<noteq> []"
  shows "tasks_of (getTasks regex cond db uid search (Some (QStr s)))
           = filter (\<lambda>t. status t = s) (tasks_of (getTasks regex cond db uid search None))"
proof -
  have c: "status_clause cond (Some (QStr s)) = Test (\<lambda>x. x = s)"
    "status_clause cond None = Absent"
    using assms by (simp_all add: status_clause_def query_truthy_def)
  have "filter (matches_filter uid sc (Test (\<lambda>x. x = s))) db
          = filter (\<lambda>t. status t = s) (filter (matches_filter uid sc Absent) db)" for sc
    by (induction db) (auto simp: matches_filter_def)
  then show ?thesis
    by (simp add: getTasks_def Let_def c filter_sort_newest_first)
qed

text \<open>
  Claim C8, as stated, has every non-empty status filter value other than \<^verbatim>\<open>pending\<close>
  and \<^verbatim>\<open>completed\<close> match no task and List answer with an empty list, not an error.
  The handler copies the value into the filter whatever its type: the object that
  \<^verbatim>\<open>status[$ne]=pending\<close> parses to is applied as a query operator and returns the
  caller's completed task. And the answer is an error when the same request carries a
  search string that the database cannot compile.
\<close>

theorem C8_operator_counterexample:
  "getTasks pcre_fragment operators_fragment example_db alice None
     (Some (QObj [(''$ne'', QStr ''pending'')])) = TaskList [report_task] \<and>
   http_status (getTasks pcre_fragment operators_fragment example_db alice
     (Some (QStr ''('')) (Some (QStr ''done''))) = 500"
  by (simp add: getTasks_eval pcre_fragment_def is_meta_def example_defs)

text \<open>
  Claim C8, amended. List does not check the status filter against the enum. A status
  filter that is a non-empty string is compared literally with the stored status: List
  returns exactly those tasks with that status that it returns without a status
  filter. Over a collection whose tasks all have one of the two enumerated statuses, a
  non-empty string other than \<^verbatim>\<open>pending\<close> and \<^verbatim>\<open>completed\<close> therefore matches nothing,
  and when the request has no search string, or one that the database compiles, List
  answers 200 with the empty list, not an error. (A status filter that is not a string
  is applied as the query operators it spells.)
\<close>

theorem C8_unknown_status_filter:
  assumes "\<forall>t \<in> set db. status t \<in> {''pending'', ''completed''}"
    and "s \<noteq> []" and "s \<notin> {''pending'', ''completed''}"
    and "regex_accepts regex search"
  shows "(\<forall>db' s'. s' \<noteq> [] \<longrightarrow>
            tasks_of (getTasks regex cond db' uid search (Some (QStr s')))
              = filter (\<lambda>t. status t = s')
                  (tasks_of (getTasks regex cond db' uid search None))) \<and>
         getTasks regex cond db uid search (Some (QStr s)) = TaskList [] \<and>
         http_status (getTasks regex cond db uid search (Some (QStr s))) = 200"
proof -
  have a: "cond_accepts cond (Some (QStr s))"
    by (simp add: cond_accepts_def status_clause_def)
  have "filter (\<lambda>t. status t = s) ts = []" if "set ts \<subseteq> set db" for ts
    using that assms(1,3) by (auto simp: filter_empty_conv)
  then have "tasks_of (getTasks regex cond db uid search (Some (QStr s))) = []"
    using getTasks_status_string [OF assms(2)] getTasks_subset by simp
  then have 2: "getTasks regex cond db uid search (Some (QStr s)) = TaskList []"
    using getTasks_accepted [OF assms(4) a, of db uid] by simp
  from getTasks_status_string 2 show ?thesis by simp
qed

text \<open>
  An instance: the filters \<^verbatim>\<open>done\<close> and \<^verbatim>\<open>Pending\<close> give Alice the empty list, and the
  filter \<^verbatim>\<open>completed\<close> gives her the one task with that status.
\<close>

theorem C8_unknown_status_filter_witness:
  "getTasks pcre_fragment operators_fragment example_db alice None (Some (QStr ''done''))
     = TaskList [] \<and>
   getTasks pcre_fragment operators_fragment example_db alice (Some (QStr ''milk''))
     (Some (QStr ''Pending'')) = TaskList [] \<and>
   tasks_of (getTasks pcre_fragment operators_fragment example_db alice None None)
     = [report_task, milk_task] \<and>
   tasks_of (getTasks pcre_fragment operators_fragment example_db alice None
     (Some (QStr ''completed''))) = [report_task]"
proof -
  have i: "\<forall>t \<in> set example_db. status t \<in> {''pending'', ''completed''}"
    by (simp add: example_defs)
  have a: "regex_accepts pcre_fragment None" "regex_accepts pcre_fragment (Some (QStr ''milk''))"
    by (simp_all add: regex_accepts_def query_truthy_def pcre_fragment_def is_meta_def)
  have l: "tasks_of (getTasks pcre_fragment operators_fragment example_db alice None None)
             = [report_task, milk_task]"
    by (simp add: getTasks_eval example_defs)
  have n: "''completed'' \<noteq> []" by simp
  note T = C8_unknown_status_filter [OF i, where regex = pcre_fragment
      and cond = operators_fragment and uid = alice]
  from T [of "''done''" None] a(1)
  have 1: "getTasks pcre_fragment operators_fragment example_db alice None (Some (QStr ''done''))
             = TaskList []"
    by simp
  from T [of "''Pending''" "Some (QStr ''milk'')"] a(2)
  have 2: "getTasks pcre_fragment operators_fragment example_db alice (Some (QStr ''milk''))
             (Some (QStr ''Pending'')) = TaskList []"
    by simp
  from T [of "''done''" None] a(1)
  have "tasks_of (getTasks pcre_fragment operators_fragment example_db alice None
          (Some (QStr ''completed'')))
        = filter (\<lambda>t. status t = ''completed'')
            (tasks_of (getTasks pcre_fragment operators_fragment example_db alice None None))"
    using n by simp
  with l have 3: "tasks_of (getTasks pcre_fragment operators_fragment example_db alice None
          (Some (QStr ''completed''))) = [report_task]"
    by (simp add: example_defs)
  from 1 2 3 l show ?thesis by simp
qed

subsection \<open>Invariants of the collection\<close>

lemma set_remove_first: "set (remove_first P db) \<subseteq> set db"
  by (induction db) auto

lemma distinct_remove_first:
  "distinct (map task_id db) \<Longrightarrow> distinct (map task_id (remove_first P db))"
proof (induction db)
  case Nil
  then show ?case by simp
next
  case (Cons x xs)
  then show ?case
    using set_remove_first [of P xs] by auto
qed

lemma createTask_cases:
  "createTask db uid b new_id now = (r, db') \<Longrightarrow>
     db' = db \<or> (\<exists>t. r = TaskCreated t \<and> db' = db @ [t] \<and> validate t \<and>
                    task_id t = new_id \<and> task_id t \<notin> set (map task_id db) \<and>
                    status t = ''pending'' \<and> userId t = uid)"
  by (auto simp: createTask_def Let_def new_Task_def save_new_def split: option.splits if_splits)

lemma updateTask_cases:
  "updateTask db uid i b now = (r, db') \<Longrightarrow>
     db' = db \<or> (\<exists>t. r = TaskUpdated t \<and> db' = replace_doc t db \<and> validate t)"
  by (auto simp: updateTask_def save_existing_def Let_def validate_def
      split: option.splits if_splits)

lemma deleteTask_cases:
  "deleteTask db uid i = (r, db') \<Longrightarrow> db' = db \<or> (\<exists>P. db' = remove_first P db)"
  by (auto simp: deleteTask_def split: option.splits)

lemma createTask_distinct:
  "distinct (map task_id db) \<Longrightarrow> distinct (map task_id (snd (createTask db uid b new_id now)))"
  using createTask_cases [of db uid b new_id now "fst (createTask db uid b new_id now)"
      "snd (createTask db uid b new_id now)"]
  by auto

lemma updateTask_distinct:
  "distinct (map task_id db) \<Longrightarrow> distinct (map task_id (snd (updateTask db uid i b now)))"
  using updateTask_cases [of db uid i b now "fst (updateTask db uid i b now)"
      "snd (updateTask db uid i b now)"]
  by (auto simp: map_task_id_replace_doc)

lemma deleteTask_distinct:
  "distinct (map task_id db) \<Longrightarrow> distinct (map task_id (snd (deleteTask db uid i)))"
  using deleteTask_cases [of db uid i "fst (deleteTask db uid i)" "snd (deleteTask db uid i)"]
  by (auto simp: distinct_remove_first)

text \<open>A property of single documents that holds of every validated one is kept by the handlers.\<close>

lemma createTask_keeps:
  assumes "\<forall>t \<in> set db. Q t" and "\<And>t. validate t \<Longrightarrow> Q t"
  shows "\<forall>t \<in> set (snd (createTask db uid b new_id now)). Q t"
  using createTask_cases [of db uid b new_id now "fst (createTask db uid b new_id now)"
      "snd (createTask db uid b new_id now)"] assms
  by auto

lemma updateTask_keeps:
  assumes "\<forall>t \<in> set db. Q t" and "\<And>t. validate t \<Longrightarrow> Q t"
  shows "\<forall>t \<in> set (snd (updateTask db uid i b now)). Q t"
  using updateTask_cases [of db uid i b now "fst (updateTask db uid i b now)"
      "snd (updateTask db uid i b now)"] assms set_replace_doc
  by fastforce

lemma deleteTask_keeps:
  assumes "\<forall>t \<in> set db. Q t"
  shows "\<forall>t \<in> set (snd (deleteTask db uid i)). Q t"
  using deleteTask_cases [of db uid i "fst (deleteTask db uid i)" "snd (deleteTask db uid i)"]
    assms set_remove_first
  by fastforce

lemma reachable_invariant:
  "reachable db \<Longrightarrow> distinct (map task_id db) \<and> (\<forall>t \<in> set db. validate t)"
proof (induction rule: reachable.induct)
  case reachable_empty
  then show ?case by simp
next
  case (reachable_create db uid b new_id now)
  then show ?case
    using createTask_distinct createTask_keeps [of db validate] by blast
next
  case (reachable_update db uid id_param b now)
  then show ?case
    using updateTask_distinct updateTask_keeps [of db validate] by blast
next
  case (reachable_delete db uid id_param)
  then show ?case
    using deleteTask_distinct deleteTask_keeps [of db validate] by blast
qed

lemma validate_status: "validate t \<Longrightarrow> status t \<in> {''pending'', ''completed''}"
  by (simp add: validate_def status_enum_def)

text \<open>
  Claim C9. The status of every task is one of \<^verbatim>\<open>pending\<close> and \<^verbatim>\<open>completed\<close>: this
  holds of every collection that the handlers can produce from the empty one. A task is
  \<^verbatim>\<open>pending\<close> when Create returns it, and Create, Update, Delete and List each keep
  the statuses inside the two values. Update moves the status of an owned task to
  either value from whatever value it has, so neither state is terminal.
\<close>

theorem C9_status_enum:
  "(reachable db \<longrightarrow> (\<forall>t \<in> set db. status t \<in> {''pending'', ''completed''})) \<and>
   (\<forall>t. fst (createTask db uid b new_id now) = TaskCreated t \<longrightarrow> status t = ''pending'') \<and>
   ((\<forall>t \<in> set db. status t \<in> {''pending'', ''completed''}) \<longrightarrow>
      (\<forall>t \<in> set (snd (createTask db uid b new_id now)). status t \<in> {''pending'', ''completed''}) \<and>
      (\<forall>t \<in> set (snd (updateTask db uid i b now)). status t \<in> {''pending'', ''completed''}) \<and>
      (\<forall>t \<in> set (snd (deleteTask db uid i)). status t \<in> {''pending'', ''completed''}) \<and>
      (\<forall>t \<in> set (tasks_of (getTasks regex cond db uid search st)). status t \<in> {''pending'', ''completed''})) \<and>
   (reachable db \<and> castObjectId i = Some oid \<and> findOne db oid uid = Some old \<and>
    s \<in> {''pending'', ''completed''} \<longrightarrow>
      (\<exists>t'. updateTask db uid i [(''status'', JStr s)] now = (TaskUpdated t', replace_doc t' db) \<and>
            findOne (replace_doc t' db) oid uid = Some t' \<and> status t' = s))"
proof -
  have 1: "\<forall>t \<in> set db. status t \<in> {''pending'', ''completed''}" if "reachable db"
    using reachable_invariant [OF that] validate_status by blast
  have 2: "status t = ''pending''" if "fst (createTask db uid b new_id now) = TaskCreated t" for t
    using that
    by (auto simp: createTask_def Let_def new_Task_def save_new_def split: option.splits if_splits)
  have 3: "(\<forall>t \<in> set (snd (createTask db uid b new_id now)). status t \<in> {''pending'', ''completed''}) \<and>
      (\<forall>t \<in> set (snd (updateTask db uid i b now)). status t \<in> {''pending'', ''completed''}) \<and>
      (\<forall>t \<in> set (snd (deleteTask db uid i)). status t \<in> {''pending'', ''completed''}) \<and>
      (\<forall>t \<in> set (tasks_of (getTasks regex cond db uid search st)). status t \<in> {''pending'', ''completed''})"
    if h: "\<forall>t \<in> set db. status t \<in> {''pending'', ''completed''}"
  proof -
    have g: "set (tasks_of (getTasks regex cond db uid search st)) \<subseteq> set db"
      by (rule getTasks_subset)
    show ?thesis
      using createTask_keeps [OF h validate_status] updateTask_keeps [OF h validate_status]
        deleteTask_keeps [OF h] g h
      by blast
  qed
  have 4: "\<exists>t'. updateTask db uid i [(''status'', JStr s)] now = (TaskUpdated t', replace_doc t' db) \<and>
            findOne (replace_doc t' db) oid uid = Some t' \<and> status t' = s"
    if r: "reachable db" and c: "castObjectId i = Some oid" and f: "findOne db oid uid = Some old"
      and s: "s \<in> {''pending'', ''completed''}"
  proof -
    from reachable_invariant [OF r] f have d: "distinct (map task_id db)" and v: "validate old"
      by (auto dest: findOne_Some)
    have ft: "\<not> truthy (field [(''status'', JStr s)] ''title'')"
      "\<not> truthy (field [(''status'', JStr s)] ''description'')"
      "field [(''status'', JStr s)] ''status'' = JStr s"
      by (simp_all add: field_def)
    from updateTask_success [OF d c f v, of "[(''status'', JStr s)]" now] ft s
    show ?thesis by (auto simp: status_enum_def)
  qed
  from 1 2 3 4 show ?thesis by blast
qed

text \<open>
  An instance: a created task is pending, an Update completes it, and a second Update
  makes it pending again.
\<close>

theorem C9_status_enum_witness:
  "reachable [milk_task] \<and>
   status milk_task = ''pending'' \<and>
   map status (snd (updateTask [milk_task] alice ''000000000000000000000001''
                      [(''status'', JStr ''completed'')] 50)) = [''completed''] \<and>
   reachable [milk_task\<lparr>status := ''completed'', updatedAt := 50\<rparr>] \<and>
   map status (snd (updateTask [milk_task\<lparr>status := ''completed'', updatedAt := 50\<rparr>] alice
                      ''000000000000000000000001'' [(''status'', JStr ''pending'')] 60)) = [''pending'']"
proof -
  let ?i = "''000000000000000000000001''"
  let ?done = "milk_task\<lparr>status := ''completed'', updatedAt := 50\<rparr>"
  have c: "castObjectId ?i = Some (task_id milk_task)"
    by (simp add: castObjectId_def is_hex_def to_lower_def example_defs)
  have "snd (createTask [] alice [(''title'', JStr ''Buy Milk''), (''description'', JStr ''From the shop'')]
               (task_id milk_task) 10) = [milk_task]"
    by (simp add: createTask_def field_def new_Task_def set_trimmed_def trim_def is_space_def
        save_new_def validate_def status_enum_def example_defs)
  then have r1: "reachable [milk_task]"
    using reachable_create [OF reachable_empty, of alice
        "[(''title'', JStr ''Buy Milk''), (''description'', JStr ''From the shop'')]"
        "task_id milk_task" 10]
    by simp
  have f1: "findOne [milk_task] (task_id milk_task) alice = Some milk_task"
    by (simp add: findOne_def example_defs)
  have u1: "snd (updateTask [milk_task] alice ?i [(''status'', JStr ''completed'')] 50) = [?done]"
    using c by (simp add: updateTask_def findOne_def assign_fields_def assign_title_def assign_description_def
        assign_status_def field_def status_enum_def save_existing_def validate_def Let_def
        example_defs)
  then have r2: "reachable [?done]"
    using reachable_update [OF r1, of alice ?i "[(''status'', JStr ''completed'')]" 50] by simp
  have f2: "findOne [?done] (task_id milk_task) alice = Some ?done"
    by (simp add: findOne_def example_defs)
  have t1: "map status (snd (updateTask [milk_task] alice ?i [(''status'', JStr ''completed'')] 50))
              = [''completed'']"
  proof -
    from C9_status_enum [where db = "[milk_task]" and uid = alice and i = ?i and now = 50
        and oid = "task_id milk_task" and old = milk_task and s = "''completed''"] r1 c f1
    obtain t' where
      u: "updateTask [milk_task] alice ?i [(''status'', JStr ''completed'')] 50
            = (TaskUpdated t', replace_doc t' [milk_task])"
      and fo: "findOne (replace_doc t' [milk_task]) (task_id milk_task) alice = Some t'"
      and st: "status t' = ''completed''"
      by blast
    from fo have "task_id t' = task_id milk_task"
      by (auto dest: findOne_Some)
    with u st show ?thesis by simp
  qed
  have t2: "map status (snd (updateTask [?done] alice ?i [(''status'', JStr ''pending'')] 60))
              = [''pending'']"
  proof -
    from C9_status_enum [where db = "[?done]" and uid = alice and i = ?i and now = 60
        and oid = "task_id milk_task" and old = ?done and s = "''pending''"] r2 c f2
    obtain t' where
      u: "updateTask [?done] alice ?i [(''status'', JStr ''pending'')] 60
            = (TaskUpdated t', replace_doc t' [?done])"
      and fo: "findOne (replace_doc t' [?done]) (task_id milk_task) alice = Some t'"
      and st: "status t' = ''pending''"
      by blast
    from fo have "task_id t' = task_id milk_task"
      by (auto dest: findOne_Some)
    with u st show ?thesis by simp
  qed
  from r1 r2 t1 t2 show ?thesis
    by (simp add: milk_task_def)
qed

subsection \<open>Search\<close>

lemma parse_atoms_literal:
  "\<forall>c \<in> set s. \<not> is_meta c \<Longrightarrow> parse_atoms s = Some (map Lit s)"
  by (induction s) (auto simp: is_meta_def)

lemma match_here_literal:
  "match_here True (map Lit s) x \<longleftrightarrow> prefix (map to_lower s) (map to_lower x)"
proof (induction s arbitrary: x)
  case Nil
  then show ?case by simp
next
  case (Cons c cs)
  then show ?case by (cases x) auto
qed

lemma match_anywhere_literal:
  "match_anywhere True (map Lit s) x \<longleftrightarrow> sublist (map to_lower s) (map to_lower x)"
proof (induction x)
  case Nil
  then show ?case by (simp add: match_here_literal)
next
  case (Cons c cs)
  then show ?case
    by (simp add: match_here_literal sublist_Cons_right del: match_here.simps)
qed

lemma pcre_fragment_literal:
  "\<forall>c \<in> set s. \<not> is_meta c \<Longrightarrow>
   pcre_fragment (QStr s) ''i'' = Some (\<lambda>x. occurs_ci s x)"
  by (simp add: pcre_fragment_def parse_atoms_literal match_anywhere_literal occurs_ci_def
      fun_eq_iff)

text \<open>
  Claim C3, as stated, says that a task is returned exactly when the search string occurs
  in its title or description. The handler hands the string to the database as a
  regular expression: the search string of one dot matches any character, and List
  returns the task titled Buy Milk although no dot occurs in its title or description.
\<close>

theorem C3_regex_counterexample:
  "milk_task \<in> set (tasks_of (getTasks pcre_fragment operators_fragment example_db alice (Some (QStr ''.'')) None)) \<and>
   \<not> occurs_ci ''.'' (title milk_task) \<and> \<not> occurs_ci ''.'' (description milk_task)"
proof -
  have "milk_task \<in> set (tasks_of (getTasks pcre_fragment operators_fragment example_db alice (Some (QStr ''.'')) None))"
    by (simp add: getTasks_eval pcre_fragment_def example_defs)
  moreover have "\<not> occurs_ci ''.'' (title milk_task)"
    by code_simp
  moreover have "\<not> occurs_ci ''.'' (description milk_task)"
    by code_simp
  ultimately show ?thesis by simp
qed

text \<open>
  Claim C3, amended. For every non-empty search string that holds no metacharacter of
  regular expressions (backslash, caret, dollar, dot, bar, question mark, star, plus,
  parentheses, brackets, braces) and every task owned by the caller, List with that
  search string and no status filter returns the task if and only if the string occurs,
  up to the case of the letters A to Z, as a substring of the task's title or of its
  description.
\<close>

theorem C3_search_literal:
  assumes "s \<noteq> []" and "\<forall>c \<in> set s. \<not> is_meta c" and "t \<in> set db" and "userId t = uid"
  shows "t \<in> set (tasks_of (getTasks pcre_fragment cond db uid (Some (QStr s)) None)) \<longleftrightarrow>
           occurs_ci s (title t) \<or> occurs_ci s (description t)"
  using assms
  by (simp add: getTasks_def Let_def search_clause_def status_clause_def query_truthy_def
      pcre_fragment_literal set_sort_newest_first matches_filter_def)

text \<open>
  An instance: the search string milk finds the task titled Buy Milk and does not find
  the task titled Write report.
\<close>

theorem C3_search_literal_witness:
  "occurs_ci ''milk'' (title milk_task) \<and>
   milk_task \<in> set (tasks_of (getTasks pcre_fragment operators_fragment example_db alice (Some (QStr ''milk'')) None)) \<and>
   \<not> occurs_ci ''milk'' (title report_task) \<and> \<not> occurs_ci ''milk'' (description report_task) \<and>
   report_task \<notin> set (tasks_of (getTasks pcre_fragment operators_fragment example_db alice (Some (QStr ''milk'')) None))"
proof -
  have m: "\<forall>c \<in> set ''milk''. \<not> is_meta c"
    by (simp add: is_meta_def)
  have o: "occurs_ci ''milk'' (title milk_task)"
    by code_simp
  have n: "\<not> occurs_ci ''milk'' (title report_task)" "\<not> occurs_ci ''milk'' (description report_task)"
    by code_simp+
  have i: "milk_task \<in> set example_db" "report_task \<in> set example_db"
    "userId milk_task = alice" "userId report_task = alice"
    by (simp_all add: example_defs)
  from C3_search_literal [OF _ m i(1) i(3)] C3_search_literal [OF _ m i(2) i(4)] o n
  show ?thesis by simp
qed

subsection \<open>Create\<close>

lemma createTask_400:
  "http_status (fst (createTask db uid b new_id now)) = 400 \<longleftrightarrow>
     \<not> truthy (field b ''title'') \<or> \<not> truthy (field b ''description'')"
  by (auto simp: createTask_def Let_def split: option.splits)

lemma createTask_strings:
  assumes "field b ''title'' = JStr t" and "field b ''description'' = JStr d"
    and "t \<noteq> []" and "d \<noteq> []"
  shows "createTask db uid b new_id now =
     (let T = \<lparr>task_id = new_id, title = trim t, description = trim d, status = ''pending'',
                userId = uid, createdAt = now, updatedAt = now\<rparr>
      in if trim t \<noteq> [] \<and> length (trim t) \<le> 100 \<and> trim d \<noteq> [] \<and> length (trim d) \<le> 500 \<and>
            new_id \<notin> set (map task_id db)
         then (TaskCreated T, db @ [T]) else (ServerError, db))"
  using assms
  by (simp add: createTask_def Let_def new_Task_def set_trimmed_def save_new_def validate_def
      status_enum_def)

lemma getTasks_single:
  assumes "own uid db = []" and "userId T = uid"
  shows "getTasks regex cond (db @ [T]) uid None None = TaskList [T]"
proof -
  have "filter (matches_filter uid Absent Absent) db = []"
    using assms(1) by (auto simp: own_def filter_empty_conv matches_filter_def)
  then show ?thesis
    using assms(2)
    by (simp add: getTasks_eval)
qed

text \<open>
  Claim C6, as stated, lets Create fail only with 400, and only for a missing or empty
  title or description, and has every other request persist a task with the title and
  description as given. A title of 101 characters is neither missing nor empty; the
  schema's \<^verbatim>\<open>maxlength\<close> rejects it when the task is saved, the handler answers 500,
  and nothing is persisted.
\<close>

theorem C6_create_validation_counterexample:
  "http_status (fst (createTask example_db alice
       [(''title'', JStr (replicate 101 CHR ''a'')), (''description'', JStr ''D'')]
       (ObjectId ''000000000000000000000004'') 40)) = 500 \<and>
   snd (createTask example_db alice
       [(''title'', JStr (replicate 101 CHR ''a'')), (''description'', JStr ''D'')]
       (ObjectId ''000000000000000000000004'') 40) = example_db"
proof -
  have "length (trim (replicate 101 CHR ''a'')) = 101"
    by (simp add: trim_def is_space_def dropWhile_eq_self_iff)
  then show ?thesis
    using createTask_strings [of "[(''title'', JStr (replicate 101 CHR ''a'')), (''description'', JStr ''D'')]"
        "replicate 101 CHR ''a''" "''D''" example_db alice "ObjectId ''000000000000000000000004''" 40]
    by (simp add: field_def)
qed

text \<open>
  Claim C6, amended. Create fails with ValidationError (400) if and only if title or
  description is falsy: missing, \<^verbatim>\<open>null\<close>, \<^verbatim>\<open>false\<close>, 0 or the empty string. For a
  title and a description that are strings, the schema trims both: when the trimmed
  title has 1 to 100 characters, the trimmed description 1 to 500, and the generated id
  is not in use, Create persists and returns a new task whose title and description are
  the trimmed inputs, whose status is \<^verbatim>\<open>pending\<close> and whose owner is the caller, with
  both timestamps set to the time of the request; for a caller who owned no task
  before, List then yields exactly this task. When a trimmed string is empty or too
  long, Create answers 500 and persists nothing.
\<close>

theorem C6_create:
  "(http_status (fst (createTask db uid b new_id now)) = 400 \<longleftrightarrow>
      \<not> truthy (field b ''title'') \<or> \<not> truthy (field b ''description'')) \<and>
   (field b ''title'' = JStr t \<and> field b ''description'' = JStr d \<and>
    trim t \<noteq> [] \<and> length (trim t) \<le> 100 \<and> trim d \<noteq> [] \<and> length (trim d) \<le> 500 \<and>
    new_id \<notin> set (map task_id db) \<longrightarrow>
      (let T = \<lparr>task_id = new_id, title = trim t, description = trim d, status = ''pending'',
                 userId = uid, createdAt = now, updatedAt = now\<rparr>
       in createTask db uid b new_id now = (TaskCreated T, db @ [T]) \<and>
          (own uid db = [] \<longrightarrow> getTasks regex cond (db @ [T]) uid None None = TaskList [T]))) \<and>
   (field b ''title'' = JStr t \<and> field b ''description'' = JStr d \<and> t \<noteq> [] \<and> d \<noteq> [] \<and>
    (trim t = [] \<or> 100 < length (trim t) \<or> trim d = [] \<or> 500 < length (trim d)) \<longrightarrow>
      createTask db uid b new_id now = (ServerError, db))"
proof -
  have ne: "t \<noteq> []" if "trim t \<noteq> []" for t
    using that by (auto simp: trim_def)
  have 2: "let T = \<lparr>task_id = new_id, title = trim t, description = trim d, status = ''pending'',
                 userId = uid, createdAt = now, updatedAt = now\<rparr>
       in createTask db uid b new_id now = (TaskCreated T, db @ [T]) \<and>
          (own uid db = [] \<longrightarrow> getTasks regex cond (db @ [T]) uid None None = TaskList [T])"
    if "field b ''title'' = JStr t" "field b ''description'' = JStr d"
      "trim t \<noteq> []" "length (trim t) \<le> 100" "trim d \<noteq> []" "length (trim d) \<le> 500"
      "new_id \<notin> set (map task_id db)"
    using createTask_strings [OF that(1,2) ne [OF that(3)] ne [OF that(5)], of db uid new_id now]
      that(3-7)
    by (simp add: Let_def getTasks_single)
  have 3: "createTask db uid b new_id now = (ServerError, db)"
    if "field b ''title'' = JStr t" "field b ''description'' = JStr d" "t \<noteq> []" "d \<noteq> []"
      "trim t = [] \<or> 100 < length (trim t) \<or> trim d = [] \<or> 500 < length (trim d)"
    using createTask_strings [OF that(1-4), of db uid new_id now] that(5)
    by (auto simp: Let_def)
  from createTask_400 2 3 show ?thesis by blast
qed

text \<open>
  An instance: Create with title T and description D, followed by List, yields exactly
  one task with title T, description D and status \<^verbatim>\<open>pending\<close>; an empty title and a
  missing description are answered 400.
\<close>

theorem C6_create_witness:
  "getTasks pcre_fragment operators_fragment
     (snd (createTask [] alice [(''title'', JStr ''T''), (''description'', JStr ''D'')]
             (ObjectId ''000000000000000000000004'') 40)) alice None None
   = TaskList [\<lparr>task_id = ObjectId ''000000000000000000000004'', title = ''T'',
                 description = ''D'', status = ''pending'', userId = alice,
                 createdAt = 40, updatedAt = 40\<rparr>] \<and>
   http_status (fst (createTask [] alice [(''title'', JStr ''''), (''description'', JStr ''D'')]
             (ObjectId ''000000000000000000000004'') 40)) = 400 \<and>
   http_status (fst (createTask [] alice [(''title'', JStr ''T'')]
             (ObjectId ''000000000000000000000004'') 40)) = 400"
proof -
  let ?b = "[(''title'', JStr ''T''), (''description'', JStr ''D'')]"
  let ?n = "ObjectId ''000000000000000000000004''"
  have t: "trim ''T'' = ''T''" "trim ''D'' = ''D''"
    by (simp_all add: trim_def is_space_def)
  have f: "field ?b ''title'' = JStr ''T''" "field ?b ''description'' = JStr ''D''"
    by (simp_all add: field_def)
  have e: "\<not> truthy (field [(''title'', JStr ''''), (''description'', JStr ''D'')] ''title'')"
    "\<not> truthy (field [(''title'', JStr ''T'')] ''description'')"
    by (simp_all add: field_def)
  from C6_create [where db = "[]" and uid = alice and b = ?b and new_id = ?n and now = 40
      and t = "''T''" and d = "''D''" and regex = pcre_fragment]
    C6_create [where db = "[]" and uid = alice and new_id = ?n and now = 40
      and b = "[(''title'', JStr ''''), (''description'', JStr ''D'')]"]
    C6_create [where db = "[]" and uid = alice and new_id = ?n and now = 40
      and b = "[(''title'', JStr ''T'')]"]
    t f e
  show ?thesis by (simp add: Let_def own_def)
qed

subsection \<open>Fields that an update keeps\<close>

lemma map_replace_doc:
  "distinct (map task_id db) \<Longrightarrow> old \<in> set db \<Longrightarrow> task_id t = task_id old \<Longrightarrow>
   f t = f old \<Longrightarrow> map f (replace_doc t db) = map f db"
  by (induction db) (auto simp: image_iff)

lemma updateTask_keeps_field:
  assumes d: "distinct (map task_id db)"
    and k: "\<And>old t. assign_fields b old = Some t \<Longrightarrow> f t = f old"
    and u: "\<And>t n. f (t\<lparr>updatedAt := n\<rparr>) = f t"
  shows "map f (snd (updateTask db uid i b now)) = map f db"
proof (cases "http_status (fst (updateTask db uid i b now)) = 200")
  case False
  then show ?thesis by (simp add: updateTask_failure)
next
  case True
  then obtain oid old t t' db' where c: "castObjectId i = Some oid"
    and f: "findOne db oid uid = Some old" and a: "assign_fields b old = Some t"
    and s: "save_existing db old t now = Some (t', db')"
    and r: "snd (updateTask db uid i b now) = db'"
    by (auto simp: updateTask_def split: option.splits)
  from s have db': "db' = replace_doc t' db" and t': "t' = t \<or> t' = t\<lparr>updatedAt := now\<rparr>"
    by (auto simp: save_existing_def Let_def split: if_splits)
  from f have o: "old \<in> set db" by (auto dest: findOne_Some)
  from a have "task_id t = task_id old" by (auto dest: assign_fields_frame)
  with t' have i: "task_id t' = task_id old" by auto
  from t' k [OF a] u have "f t' = f old" by auto
  with map_replace_doc [OF d o i] r db' show ?thesis by simp
qed

lemma updateTask_userId:
  "distinct (map task_id db) \<Longrightarrow> map userId (snd (updateTask db uid i b now)) = map userId db"
  by (rule updateTask_keeps_field) (auto dest: assign_fields_frame)

lemma assign_status_invalid:
  "v \<notin> {JStr ''pending'', JStr ''completed''} \<Longrightarrow> assign_status v t = t"
  by (auto simp: assign_status_def status_enum_def)

lemma assign_fields_invalid_status:
  "field b ''status'' \<notin> {JStr ''pending'', JStr ''completed''} \<Longrightarrow>
   assign_fields b old = Some t \<Longrightarrow> status t = status old"
  by (auto simp: assign_fields_def assign_title_def assign_description_def assign_status_invalid
      split: option.splits if_splits)

lemma updateTask_status:
  assumes "distinct (map task_id db)"
    and "field b ''status'' \<notin> {JStr ''pending'', JStr ''completed''}"
  shows "map status (snd (updateTask db uid i b now)) = map status db"
proof (rule updateTask_keeps_field)
  show "distinct (map task_id db)" by fact
next
  fix old t
  assume "assign_fields b old = Some t"
  with assms(2) show "status t = status old"
    by (rule assign_fields_invalid_status)
next
  fix t :: task and n
  show "status (t\<lparr>updatedAt := n\<rparr>) = status t" by simp
qed

lemma updateTask_cong:
  "(\<And>t. assign_fields b' t = assign_fields b t) \<Longrightarrow>
   updateTask db uid i b' now = updateTask db uid i b now"
  by (simp add: updateTask_def split: option.splits)

lemma assign_title_falsy: "\<not> truthy v \<Longrightarrow> assign_title v = Some"
  by (simp add: assign_title_def fun_eq_iff)

lemma assign_description_falsy: "\<not> truthy v \<Longrightarrow> assign_description v = Some"
  by (simp add: assign_description_def fun_eq_iff)

lemma updateTask_rejects:
  "castObjectId i = Some oid \<Longrightarrow> findOne db oid uid = Some old \<Longrightarrow>
   assign_fields b old = Some t \<Longrightarrow> \<not> validate t \<Longrightarrow>
   updateTask db uid i b now = (ServerError, db)"
  by (simp add: updateTask_def save_existing_def)

lemma trim_replicate: "\<not> is_space c \<Longrightarrow> trim (replicate n c) = replicate n c"
  by (simp add: trim_def dropWhile_eq_self_iff)

lemma milk_lookup:
  "castObjectId ''000000000000000000000001'' = Some (task_id milk_task)"
  "findOne example_db (task_id milk_task) alice = Some milk_task"
  by (simp_all add: castObjectId_def is_hex_def to_lower_def findOne_def example_defs)

lemma assign_fields_title_falsy:
  "\<not> truthy (field b ''title'') \<Longrightarrow> assign_fields b old = Some t \<Longrightarrow> title t = title old"
  by (auto simp: assign_fields_def assign_title_def assign_description_def assign_status_cases
      split: option.splits if_splits)

lemma assign_fields_description_falsy:
  "\<not> truthy (field b ''description'') \<Longrightarrow> assign_fields b old = Some t \<Longrightarrow>
   description t = description old"
  by (auto simp: assign_fields_def assign_title_def assign_description_def assign_status_cases
      split: option.splits if_splits)

lemma updateTask_stored:
  assumes d: "distinct (map task_id db)" and c: "castObjectId i = Some oid"
    and f: "findOne db oid uid = Some old"
  shows "\<exists>t'. findOne (snd (updateTask db uid i b now)) oid uid = Some t' \<and>
           (t' = old \<or> (\<exists>t. assign_fields b old = Some t \<and> title t' = title t \<and>
                              description t' = description t \<and> status t' = status t))"
proof (cases "http_status (fst (updateTask db uid i b now)) = 200")
  case False
  then show ?thesis using f by (simp add: updateTask_failure)
next
  case True
  then obtain t t' db' where a: "assign_fields b old = Some t"
    and s: "save_existing db old t now = Some (t', db')"
    and r: "snd (updateTask db uid i b now) = db'"
    using c f by (auto simp: updateTask_def split: option.splits)
  from f have o: "old \<in> set db" "task_id old = oid" "userId old = uid"
    by (auto dest: findOne_Some)
  from save_existing_frame [OF s] assign_fields_frame [OF a] o
  have t': "task_id t' = task_id old" "task_id t' = oid" "userId t' = uid" "db' = replace_doc t' db"
    "title t' = title t" "description t' = description t" "status t' = status t"
    by simp_all
  from findOne_replace_doc [OF d o(1) t'(1)] t' r
  have "findOne (snd (updateTask db uid i b now)) oid uid = Some t'" by simp
  with a t' show ?thesis by blast
qed

lemma falsy_values: "v \<in> {JUndefined, JStr []} \<Longrightarrow> \<not> truthy v"
  by auto

lemma assign_fields_cong:
  assumes "field b' ''title'' = field b ''title'' \<or>
             (\<not> truthy (field b ''title'') \<and> \<not> truthy (field b' ''title''))"
    and "field b' ''description'' = field b ''description'' \<or>
             (\<not> truthy (field b ''description'') \<and> \<not> truthy (field b' ''description''))"
    and "field b' ''status'' = field b ''status'' \<or>
             (field b ''status'' \<notin> {JStr ''pending'', JStr ''completed''} \<and>
              field b' ''status'' \<notin> {JStr ''pending'', JStr ''completed''})"
  shows "assign_fields b' t = assign_fields b t"
proof -
  have 1: "assign_title (field b' ''title'') = assign_title (field b ''title'')"
    using assms(1) by (auto simp: assign_title_falsy)
  have 2: "assign_description (field b' ''description'') = assign_description (field b ''description'')"
    using assms(2) by (auto simp: assign_description_falsy)
  have 3: "assign_status (field b' ''status'') = assign_status (field b ''status'')"
    using assms(3) by (auto simp: assign_status_invalid fun_eq_iff)
  show ?thesis by (simp add: assign_fields_def 1 2 3 split: option.splits)
qed

lemma trim_nonempty: "trim s \<noteq> [] \<Longrightarrow> s \<noteq> []"
  by (auto simp: trim_def)

lemma updateTask_strings:
  assumes d: "distinct (map task_id db)" and c: "castObjectId i = Some oid"
    and f: "findOne db oid uid = Some old" and v: "validate old"
    and ht: "field b ''title'' \<in> {JUndefined, JStr []} \<or>
        (\<exists>s. field b ''title'' = JStr s \<and> trim s \<noteq> [] \<and> length (trim s) \<le> 100)"
    and hd: "field b ''description'' \<in> {JUndefined, JStr []} \<or>
        (\<exists>s. field b ''description'' = JStr s \<and> trim s \<noteq> [] \<and> length (trim s) \<le> 500)"
  shows "\<exists>t'. updateTask db uid i b now = (TaskUpdated t', replace_doc t' db) \<and>
             findOne (replace_doc t' db) oid uid = Some t' \<and>
             title t' = (case field b ''title'' of
                           JStr s \<Rightarrow> if s = [] then title old else trim s | _ \<Rightarrow> title old) \<and>
             description t' = (case field b ''description'' of
                           JStr s \<Rightarrow> if s = [] then description old else trim s
                         | _ \<Rightarrow> description old) \<and>
             status t' = (case field b ''status'' of
                          JStr s \<Rightarrow> if s \<in> set status_enum then s else status old
                        | _ \<Rightarrow> status old)"
proof -
  have ot: "truthy (field b ''title'') \<longrightarrow>
          (\<exists>s. set_trimmed (field b ''title'') = Some s \<and> s \<noteq> [] \<and> length s \<le> 100)"
    using ht by (auto simp: set_trimmed_def)
  have od: "truthy (field b ''description'') \<longrightarrow>
          (\<exists>s. set_trimmed (field b ''description'') = Some s \<and> s \<noteq> [] \<and> length s \<le> 500)"
    using hd by (auto simp: set_trimmed_def)
  from updateTask_success [OF d c f v ot od, of now] obtain u where
    u: "updateTask db uid i b now = (TaskUpdated u, replace_doc u db)"
      "findOne (replace_doc u db) oid uid = Some u"
      "title u = (if truthy (field b ''title'') then the (set_trimmed (field b ''title''))
                     else title old)"
      "description u = (if truthy (field b ''description'')
                           then the (set_trimmed (field b ''description'')) else description old)"
      "status u = (case field b ''status'' of
                          JStr s \<Rightarrow> if s \<in> set status_enum then s else status old
                        | _ \<Rightarrow> status old)"
    by blast
  have "title u = (case field b ''title'' of
                         JStr s \<Rightarrow> if s = [] then title old else trim s | _ \<Rightarrow> title old)"
    using ht u(3) by (auto simp: set_trimmed_def dest: trim_nonempty)
  moreover have "description u = (case field b ''description'' of
                         JStr s \<Rightarrow> if s = [] then description old else trim s
                       | _ \<Rightarrow> description old)"
    using hd u(4) by (auto simp: set_trimmed_def dest: trim_nonempty)
  ultimately show ?thesis using u(1,2,5) by blast
qed

subsection \<open>Partial update\<close>

text \<open>
  Claim C4, as stated, has every supplied non-empty field applied while an omitted or
  empty one is left alone. Here the description is supplied empty and the title is a
  non-empty string of 101 characters: the schema's \<^verbatim>\<open>maxlength\<close> rejects the title
  when the task is saved, the handler answers 500, and the title is not applied.
\<close>

theorem C4_long_title_counterexample:
  "updateTask example_db alice ''000000000000000000000001''
     [(''title'', JStr (replicate 101 CHR ''x'')), (''description'', JStr '''')] 40
   = (ServerError, example_db)"
proof -
  let ?b = "[(''title'', JStr (replicate 101 CHR ''x'')), (''description'', JStr '''')]"
  have x: "\<not> is_space CHR ''x''" by (simp add: is_space_def)
  have a: "assign_fields ?b milk_task = Some (milk_task\<lparr>title := replicate 101 CHR ''x''\<rparr>)"
    by (simp add: assign_fields_def assign_title_def assign_description_def assign_status_def
        field_def set_trimmed_def trim_replicate [OF x] status_enum_def)
  have n: "\<not> validate (milk_task\<lparr>title := replicate 101 CHR ''x''\<rparr>)"
    by (simp add: validate_def)
  from updateTask_rejects [OF milk_lookup a n] show ?thesis .
qed

text \<open>
  Claim C4, amended. For every owned task (stored valid, in a collection with distinct
  ids): a title or description that is omitted from the request, or supplied as the
  empty string, leaves the stored value of that field unchanged, and a request with the
  field omitted and the request with it empty have the same outcome. When each of
  title and description is omitted, empty, or a string whose trimmed value has 1 to 100
  characters (title) or 1 to 500 characters (description), the Update succeeds and the
  supplied non-empty fields are stored trimmed. The owner of no task is changed by any
  Update, and the owner of a created task is the caller who created it.
\<close>

theorem C4_partial_update:
  assumes d: "distinct (map task_id db)" and c: "castObjectId i = Some oid"
    and f: "findOne db oid uid = Some old" and v: "validate old"
  shows
   "(field b ''title'' \<in> {JUndefined, JStr []} \<longrightarrow>
       map_option title (findOne (snd (updateTask db uid i b now)) oid uid) = Some (title old)) \<and>
    (field b ''description'' \<in> {JUndefined, JStr []} \<longrightarrow>
       map_option description (findOne (snd (updateTask db uid i b now)) oid uid)
         = Some (description old)) \<and>
    ((\<forall>k \<in> {''title'', ''description''}.
         field b' k = field b k \<or>
         (field b k \<in> {JUndefined, JStr []} \<and> field b' k \<in> {JUndefined, JStr []})) \<and>
     field b' ''status'' = field b ''status'' \<longrightarrow>
       updateTask db uid i b' now = updateTask db uid i b now) \<and>
    ((field b ''title'' \<in> {JUndefined, JStr []} \<or>
        (\<exists>s. field b ''title'' = JStr s \<and> trim s \<noteq> [] \<and> length (trim s) \<le> 100)) \<and>
     (field b ''description'' \<in> {JUndefined, JStr []} \<or>
        (\<exists>s. field b ''description'' = JStr s \<and> trim s \<noteq> [] \<and> length (trim s) \<le> 500)) \<longrightarrow>
       (\<exists>t'. updateTask db uid i b now = (TaskUpdated t', replace_doc t' db) \<and>
             findOne (replace_doc t' db) oid uid = Some t' \<and>
             title t' = (case field b ''title'' of
                           JStr s \<Rightarrow> if s = [] then title old else trim s | _ \<Rightarrow> title old) \<and>
             description t' = (case field b ''description'' of
                           JStr s \<Rightarrow> if s = [] then description old else trim s
                         | _ \<Rightarrow> description old))) \<and>
    map userId (snd (updateTask db uid j b now)) = map userId db \<and>
    (\<forall>t. fst (createTask db uid b new_id now) = TaskCreated t \<longrightarrow> userId t = uid)"
proof -
  from updateTask_stored [OF d c f, of b now] obtain t' where
    s: "findOne (snd (updateTask db uid i b now)) oid uid = Some t'"
    and t': "t' = old \<or> (\<exists>t. assign_fields b old = Some t \<and> title t' = title t \<and>
                              description t' = description t \<and> status t' = status t)"
    by blast
  have 1: "map_option title (findOne (snd (updateTask db uid i b now)) oid uid) = Some (title old)"
    if "field b ''title'' \<in> {JUndefined, JStr []}"
    using s t' assign_fields_title_falsy [OF falsy_values [OF that]] by auto
  have 2: "map_option description (findOne (snd (updateTask db uid i b now)) oid uid)
         = Some (description old)"
    if "field b ''description'' \<in> {JUndefined, JStr []}"
    using s t' assign_fields_description_falsy [OF falsy_values [OF that]] by auto
  have 3: "updateTask db uid i b' now = updateTask db uid i b now"
    if "\<forall>k \<in> {''title'', ''description''}.
         field b' k = field b k \<or>
         (field b k \<in> {JUndefined, JStr []} \<and> field b' k \<in> {JUndefined, JStr []})"
      and "field b' ''status'' = field b ''status''"
  proof (rule updateTask_cong, rule assign_fields_cong)
    show "field b' ''title'' = field b ''title'' \<or>
             (\<not> truthy (field b ''title'') \<and> \<not> truthy (field b' ''title''))"
      using that(1) by auto
    show "field b' ''description'' = field b ''description'' \<or>
             (\<not> truthy (field b ''description'') \<and> \<not> truthy (field b' ''description''))"
      using that(1) by auto
    show "field b' ''status'' = field b ''status'' \<or>
             (field b ''status'' \<notin> {JStr ''pending'', JStr ''completed''} \<and>
              field b' ''status'' \<notin> {JStr ''pending'', JStr ''completed''})"
      using that(2) by simp
  qed
  have 4: "\<exists>t'. updateTask db uid i b now = (TaskUpdated t', replace_doc t' db) \<and>
             findOne (replace_doc t' db) oid uid = Some t' \<and>
             title t' = (case field b ''title'' of
                           JStr s \<Rightarrow> if s = [] then title old else trim s | _ \<Rightarrow> title old) \<and>
             description t' = (case field b ''description'' of
                           JStr s \<Rightarrow> if s = [] then description old else trim s
                         | _ \<Rightarrow> description old)"
    if ht: "field b ''title'' \<in> {JUndefined, JStr []} \<or>
        (\<exists>s. field b ''title'' = JStr s \<and> trim s \<noteq> [] \<and> length (trim s) \<le> 100)"
      and hd: "field b ''description'' \<in> {JUndefined, JStr []} \<or>
        (\<exists>s. field b ''description'' = JStr s \<and> trim s \<noteq> [] \<and> length (trim s) \<le> 500)"
    using updateTask_strings [OF d c f v ht hd, of now] by blast
  have 5: "map userId (snd (updateTask db uid j b now)) = map userId db"
    by (rule updateTask_userId [OF d])
  have 6: "\<forall>t. fst (createTask db uid b new_id now) = TaskCreated t \<longrightarrow> userId t = uid"
    by (auto simp: createTask_def Let_def new_Task_def save_new_def split: option.splits if_splits)
  from 1 2 3 4 5 6 show ?thesis by blast
qed


text \<open>
  An instance: an Update of the task titled Buy Milk with an empty title and a new
  description keeps the title, stores the description, behaves as the request without
  a title, and leaves all owners as they were.
\<close>

theorem C4_partial_update_witness:
  "updateTask example_db alice ''000000000000000000000001''
     [(''description'', JStr ''Semi-skimmed'')] 40
   = updateTask example_db alice ''000000000000000000000001''
       [(''title'', JStr []), (''description'', JStr ''Semi-skimmed'')] 40 \<and>
   map_option title (findOne (snd (updateTask example_db alice ''000000000000000000000001''
     [(''title'', JStr []), (''description'', JStr ''Semi-skimmed'')] 40)) (task_id milk_task) alice)
   = Some ''Buy Milk'' \<and>
   map_option description (findOne (snd (updateTask example_db alice ''000000000000000000000001''
     [(''title'', JStr []), (''description'', JStr ''Semi-skimmed'')] 40)) (task_id milk_task) alice)
   = Some ''Semi-skimmed'' \<and>
   map userId (snd (updateTask example_db alice ''000000000000000000000001''
     [(''title'', JStr []), (''description'', JStr ''Semi-skimmed'')] 40)) = [alice, bob, alice]"
proof -
  let ?i = "''000000000000000000000001''"
  let ?b = "[(''title'', JStr []), (''description'', JStr ''Semi-skimmed'')]"
  let ?b' = "[(''description'', JStr ''Semi-skimmed'')]"
  have d: "distinct (map task_id example_db)" by (simp add: example_defs)
  have v: "validate milk_task" by (simp add: validate_def status_enum_def milk_task_def)
  have fb: "field ?b ''title'' = JStr []" "field ?b ''description'' = JStr ''Semi-skimmed''"
    "field ?b ''status'' = JUndefined" "field ?b' ''title'' = JUndefined"
    "field ?b' ''description'' = JStr ''Semi-skimmed''" "field ?b' ''status'' = JUndefined"
    by (simp_all add: field_def)
  have tr: "trim ''Semi-skimmed'' = ''Semi-skimmed''"
    by (simp add: trim_def is_space_def)
  note T = C4_partial_update [OF d milk_lookup v, where b = ?b and b' = ?b' and now = 40 and j = ?i]
  from T fb have 1: "updateTask example_db alice ?i ?b' 40 = updateTask example_db alice ?i ?b 40"
    by simp
  from T fb have 2: "map_option title (findOne (snd (updateTask example_db alice ?i ?b 40))
                       (task_id milk_task) alice) = Some (title milk_task)"
    by simp
  from T fb tr obtain t' where
    u: "updateTask example_db alice ?i ?b 40 = (TaskUpdated t', replace_doc t' example_db)"
    and fo: "findOne (replace_doc t' example_db) (task_id milk_task) alice = Some t'"
    and de: "description t' = ''Semi-skimmed''"
    by auto
  from u fo de have 3: "map_option description (findOne (snd (updateTask example_db alice ?i ?b 40))
                       (task_id milk_task) alice) = Some ''Semi-skimmed''"
    by simp
  from T have 4: "map userId (snd (updateTask example_db alice ?i ?b 40)) = map userId example_db"
    by blast
  from 1 2 3 4 show ?thesis by (simp add: example_defs)
qed

subsection \<open>Invalid status\<close>

text \<open>
  Claim C5, as stated, has every Update with an invalid status succeed with 200 and
  apply the valid title and description changes of the request. Here the status is
  invalid, the description is valid and the title has 101 characters: the save is
  rejected, the handler answers 500, and the valid description is not applied either.
\<close>

theorem C5_invalid_status_counterexample:
  "http_status (fst (updateTask example_db alice ''000000000000000000000001''
     [(''status'', JStr ''archived''), (''title'', JStr (replicate 101 CHR ''x'')),
      (''description'', JStr ''Semi-skimmed'')] 40)) = 500 \<and>
   snd (updateTask example_db alice ''000000000000000000000001''
     [(''status'', JStr ''archived''), (''title'', JStr (replicate 101 CHR ''x'')),
      (''description'', JStr ''Semi-skimmed'')] 40) = example_db"
proof -
  let ?b = "[(''status'', JStr ''archived''), (''title'', JStr (replicate 101 CHR ''x'')),
      (''description'', JStr ''Semi-skimmed'')]"
  have x: "\<not> is_space CHR ''x''" by (simp add: is_space_def)
  have a: "assign_fields ?b milk_task
             = Some (milk_task\<lparr>title := replicate 101 CHR ''x'', description := ''Semi-skimmed''\<rparr>)"
    by (simp add: assign_fields_def assign_title_def assign_description_def assign_status_def
        field_def set_trimmed_def trim_replicate [OF x] status_enum_def)
      (simp add: trim_def is_space_def)
  have n: "\<not> validate (milk_task\<lparr>title := replicate 101 CHR ''x'', description := ''Semi-skimmed''\<rparr>)"
    by (simp add: validate_def)
  from updateTask_rejects [OF milk_lookup a n] show ?thesis by simp
qed


text \<open>
  Claim C5, amended. For every Update request whose status value is neither exactly
  \<^verbatim>\<open>pending\<close> nor exactly \<^verbatim>\<open>completed\<close>, the status raises no error and changes
  nothing: the outcome is that of the same request without a status, and the status of
  every stored task is left unchanged. When the task is owned (and stored valid) and
  each of title and description is omitted, empty, or a string whose trimmed value has
  1 to 100 characters (title) or 1 to 500 characters (description), the Update succeeds
  with 200, the status is unchanged, and the supplied non-empty title and description
  are stored trimmed.
\<close>

theorem C5_invalid_status:
  assumes "field b ''status'' \<notin> {JStr ''pending'', JStr ''completed''}"
  shows
   "(field b' ''title'' = field b ''title'' \<and> field b' ''description'' = field b ''description'' \<and>
     field b' ''status'' = JUndefined \<longrightarrow>
       updateTask db uid i b' now = updateTask db uid i b now) \<and>
    (distinct (map task_id db) \<longrightarrow>
       map status (snd (updateTask db uid i b now)) = map status db) \<and>
    (distinct (map task_id db) \<and> castObjectId i = Some oid \<and> findOne db oid uid = Some old \<and>
     validate old \<and>
     (field b ''title'' \<in> {JUndefined, JStr []} \<or>
        (\<exists>s. field b ''title'' = JStr s \<and> trim s \<noteq> [] \<and> length (trim s) \<le> 100)) \<and>
     (field b ''description'' \<in> {JUndefined, JStr []} \<or>
        (\<exists>s. field b ''description'' = JStr s \<and> trim s \<noteq> [] \<and> length (trim s) \<le> 500)) \<longrightarrow>
       (\<exists>t'. updateTask db uid i b now = (TaskUpdated t', replace_doc t' db) \<and>
             http_status (fst (updateTask db uid i b now)) = 200 \<and>
             findOne (replace_doc t' db) oid uid = Some t' \<and>
             status t' = status old \<and>
             title t' = (case field b ''title'' of
                           JStr s \<Rightarrow> if s = [] then title old else trim s | _ \<Rightarrow> title old) \<and>
             description t' = (case field b ''description'' of
                           JStr s \<Rightarrow> if s = [] then description old else trim s
                         | _ \<Rightarrow> description old)))"
proof -
  have 1: "updateTask db uid i b' now = updateTask db uid i b now"
    if "field b' ''title'' = field b ''title''" "field b' ''description'' = field b ''description''"
      "field b' ''status'' = JUndefined"
  proof (rule updateTask_cong, rule assign_fields_cong)
    show "field b' ''title'' = field b ''title'' \<or>
             (\<not> truthy (field b ''title'') \<and> \<not> truthy (field b' ''title''))"
      using that(1) by simp
    show "field b' ''description'' = field b ''description'' \<or>
             (\<not> truthy (field b ''description'') \<and> \<not> truthy (field b' ''description''))"
      using that(2) by simp
    show "field b' ''status'' = field b ''status'' \<or>
             (field b ''status'' \<notin> {JStr ''pending'', JStr ''completed''} \<and>
              field b' ''status'' \<notin> {JStr ''pending'', JStr ''completed''})"
      using that(3) assms by simp
  qed
  have 2: "map status (snd (updateTask db uid i b now)) = map status db"
    if "distinct (map task_id db)"
    using updateTask_status [OF that assms] .
  have 3: "\<exists>t'. updateTask db uid i b now = (TaskUpdated t', replace_doc t' db) \<and>
             http_status (fst (updateTask db uid i b now)) = 200 \<and>
             findOne (replace_doc t' db) oid uid = Some t' \<and>
             status t' = status old \<and>
             title t' = (case field b ''title'' of
                           JStr s \<Rightarrow> if s = [] then title old else trim s | _ \<Rightarrow> title old) \<and>
             description t' = (case field b ''description'' of
                           JStr s \<Rightarrow> if s = [] then description old else trim s
                         | _ \<Rightarrow> description old)"
    if d: "distinct (map task_id db)" and c: "castObjectId i = Some oid"
      and f: "findOne db oid uid = Some old" and v: "validate old"
      and ht: "field b ''title'' \<in> {JUndefined, JStr []} \<or>
        (\<exists>s. field b ''title'' = JStr s \<and> trim s \<noteq> [] \<and> length (trim s) \<le> 100)"
      and hd: "field b ''description'' \<in> {JUndefined, JStr []} \<or>
        (\<exists>s. field b ''description'' = JStr s \<and> trim s \<noteq> [] \<and> length (trim s) \<le> 500)"
  proof -
    from updateTask_strings [OF d c f v ht hd, of now] obtain u where
      u: "updateTask db uid i b now = (TaskUpdated u, replace_doc u db)"
        "findOne (replace_doc u db) oid uid = Some u"
        "title u = (case field b ''title'' of
                           JStr s \<Rightarrow> if s = [] then title old else trim s | _ \<Rightarrow> title old)"
        "description u = (case field b ''description'' of
                           JStr s \<Rightarrow> if s = [] then description old else trim s
                         | _ \<Rightarrow> description old)"
        "status u = (case field b ''status'' of
                          JStr s \<Rightarrow> if s \<in> set status_enum then s else status old
                        | _ \<Rightarrow> status old)"
      by blast
    from u(5) assms have "status u = status old"
      by (auto simp: status_enum_def split: jsval.splits)
    with u(1-4) show ?thesis by auto
  qed
  from 1 2 3 show ?thesis by blast
qed

text \<open>
  An instance: the status \<^verbatim>\<open>archived\<close> sent together with a new title gives 200, the
  new title, and the statuses as before, as the request without the status does.
\<close>

theorem C5_invalid_status_witness:
  "http_status (fst (updateTask example_db alice ''000000000000000000000001''
     [(''status'', JStr ''archived''), (''title'', JStr ''Buy oat milk'')] 40)) = 200 \<and>
   map status (snd (updateTask example_db alice ''000000000000000000000001''
     [(''status'', JStr ''archived''), (''title'', JStr ''Buy oat milk'')] 40))
     = [''pending'', ''completed'', ''completed''] \<and>
   map title (snd (updateTask example_db alice ''000000000000000000000001''
     [(''status'', JStr ''archived''), (''title'', JStr ''Buy oat milk'')] 40))
     = [''Buy oat milk'', ''Pay rent'', ''Write report''] \<and>
   updateTask example_db alice ''000000000000000000000001'' [(''title'', JStr ''Buy oat milk'')] 40
     = updateTask example_db alice ''000000000000000000000001''
         [(''status'', JStr ''archived''), (''title'', JStr ''Buy oat milk'')] 40"
proof -
  let ?i = "''000000000000000000000001''"
  let ?b = "[(''status'', JStr ''archived''), (''title'', JStr ''Buy oat milk'')]"
  let ?b' = "[(''title'', JStr ''Buy oat milk'')]"
  have d: "distinct (map task_id example_db)" by (simp add: example_defs)
  have v: "validate milk_task" by (simp add: validate_def status_enum_def milk_task_def)
  have fb: "field ?b ''title'' = JStr ''Buy oat milk''" "field ?b ''description'' = JUndefined"
    "field ?b ''status'' = JStr ''archived''" "field ?b' ''title'' = JStr ''Buy oat milk''"
    "field ?b' ''description'' = JUndefined" "field ?b' ''status'' = JUndefined"
    by (simp_all add: field_def)
  have s: "field ?b ''status'' \<notin> {JStr ''pending'', JStr ''completed''}"
    by (simp add: field_def)
  have tr: "trim ''Buy oat milk'' = ''Buy oat milk''"
    by (simp add: trim_def is_space_def)
  note T = C5_invalid_status [OF s, where b' = ?b' and db = example_db and uid = alice and i = ?i
      and now = 40 and oid = "task_id milk_task" and old = milk_task]
  from T fb have 1: "updateTask example_db alice ?i ?b' 40 = updateTask example_db alice ?i ?b 40"
    by simp
  from T d have 2: "map status (snd (updateTask example_db alice ?i ?b 40)) = map status example_db"
    by blast
  from T d milk_lookup v fb tr obtain t' where
    u: "updateTask example_db alice ?i ?b 40 = (TaskUpdated t', replace_doc t' example_db)"
    and fo: "findOne (replace_doc t' example_db) (task_id milk_task) alice = Some t'"
    and ti: "title t' = ''Buy oat milk''"
    by auto
  from fo have "task_id t' = task_id milk_task" by (auto dest: findOne_Some)
  with u ti have 3: "map title (snd (updateTask example_db alice ?i ?b 40))
     = [''Buy oat milk'', ''Pay rent'', ''Write report'']"
    by (simp add: example_defs)
  from u have 4: "http_status (fst (updateTask example_db alice ?i ?b 40)) = 200" by simp
  from 1 2 3 4 show ?thesis by (simp add: example_defs)
qed

end
